theory Spec2Isabelle
  imports Complex_Main
begin

section \<open>The service lifecycle of \<^verbatim>\<open>podman/command/command.py\<close>\<close>

text \<open>
  The file verified here is \<^verbatim>\<open>src/podman/command/command.py\<close>: the four methods
  \<^verbatim>\<open>start_service\<close>, \<^verbatim>\<open>stop_service\<close>, \<^verbatim>\<open>wait_for_service\<close> and the context manager
  \<^verbatim>\<open>service\<close> of class \<^verbatim>\<open>PodmanCommand\<close>.

  The methods are stateful: they read a clock, sleep, ping an endpoint and drive a child
  process through a \<^verbatim>\<open>subprocess.Popen\<close> handle. The embedding passes the state
  explicitly. A \<open>world\<close> holds what changes (the child process, the handle's cached
  return code, how often each oracle has been consulted, and the trace of calls made to
  the outside); an \<open>env\<close> holds what the outside answers (the platform name, the clock
  readings, the ping replies, when the child exits, and what the library calls raise whose
  failure depends on the platform). Exceptions are values of type
  \<open>error\<close>; a call that never returns has the value \<open>None\<close>. Python floats are
  IEEE doubles: a finite float is the rational number it denotes, and the float
  operations of the file round as the hardware does.
\<close>

subsection \<open>Exceptions\<close>

text \<open>
  Modelled from the spec: the module \<^verbatim>\<open>podman.errors\<close> is not part of the verified
  file, so its classes are the error taxonomy of the spec. \<open>PodmanError\<close> is the error for
  an unsupported platform, \<open>ServiceTimeout\<close> and \<open>ServiceTerminated\<close> carry the timeout
  and the exit code, and \<open>APIError\<close> is the recoverable "API unreachable" class of ping
  failures. The classes are taken as unrelated by subclassing: an \<^verbatim>\<open>except\<close> clause
  for one does not catch another. \<open>TimeoutExpired\<close> is
  \<^verbatim>\<open>subprocess.TimeoutExpired\<close>, and \<open>OtherError\<close> stands for every exception class
  that the file does not name.
\<close>

datatype error =
    PodmanError string
  | ServiceTimeout int
  | ServiceTerminated int
  | APIError string
  | TimeoutExpired
  | OtherError string

text \<open>\<^verbatim>\<open>except errors.APIError\<close>\<close>

fun is_APIError :: "error \<Rightarrow> bool" where
  "is_APIError (APIError m) = True"
| "is_APIError e = False"

text \<open>\<^verbatim>\<open>except (errors.ServiceTimeout, errors.ServiceTerminated)\<close>\<close>

fun is_readiness_failure :: "error \<Rightarrow> bool" where
  "is_readiness_failure (ServiceTimeout t) = True"
| "is_readiness_failure (ServiceTerminated r) = True"
| "is_readiness_failure e = False"

subsection \<open>Floats\<close>

text \<open>
  \<^verbatim>\<open>int.bit_length\<close>, powers of two with an integer exponent, and the exponent of the
  binade of a positive rational: \<open>pow2 (floor_log2 x) \<le> x < pow2 (floor_log2 x + 1)\<close>.
\<close>

function bit_length :: "int \<Rightarrow> nat" where
  "bit_length n = (if n \<le> 0 then 0 else Suc (bit_length (n div 2)))"
  by pat_completeness auto
termination
  by (relation "measure nat") auto

declare bit_length.simps [simp del]

definition pow2 :: "int \<Rightarrow> rat" where
  "pow2 e = (if 0 \<le> e then 2 ^ nat e else 1 / 2 ^ nat (- e))"

definition floor_log2 :: "rat \<Rightarrow> int" where
  "floor_log2 x =
     (case quotient_of x of
        (p, q) \<Rightarrow>
          (let d = int (bit_length p) - int (bit_length q)
           in if pow2 d \<le> x then d else d - 1))"

text \<open>Rounding to the nearest integer, a tie to the even one.\<close>

definition round_half_even :: "rat \<Rightarrow> int" where
  "round_half_even x =
     (let f = \<lfloor>x\<rfloor>; d = x - of_int f
      in if d < 1 / 2 then f else if 1 / 2 < d then f + 1 else if even f then f else f + 1)"

text \<open>
  The double nearest to a rational (53 significant bits, least exponent \<open>-1022\<close>, ties to
  even), before the range check: a result of magnitude \<open>2 ^ 1024\<close> or more stands for an
  infinity.
\<close>

definition round_to_double :: "rat \<Rightarrow> rat" where
  "round_to_double x =
     (if x = 0 then 0
      else (let e = max (floor_log2 \<bar>x\<bar>) (- 1022) - 52
            in of_int (round_half_even (x / pow2 e)) * pow2 e))"

text \<open>
  \<^verbatim>\<open>a - b > t\<close> for floats \<open>a\<close>, \<open>b\<close> and an int \<open>t\<close>: the difference is rounded to a
  double (or is an infinity), and the comparison of a float with an int is exact.
\<close>

definition float_sub_gt :: "rat \<Rightarrow> rat \<Rightarrow> int \<Rightarrow> bool" where
  "float_sub_gt a b t =
     (let r = round_to_double (a - b)
      in if 2 ^ 1024 \<le> r then True
         else if r \<le> - (2 ^ 1024) then False
         else of_int t < r)"

text \<open>
  \<^verbatim>\<open>_time() + timeout\<close> for an int \<open>timeout\<close> converts the int to a float first, which
  raises \<^verbatim>\<open>OverflowError\<close> when the nearest double would be out of range.
\<close>

definition int_overflows_float :: "int \<Rightarrow> bool" where
  "int_overflows_float t = (2 ^ 1024 - 2 ^ 970 \<le> \<bar>t\<bar>)"

subsection \<open>The outside world\<close>

text \<open>
  The child process as the operating system sees it: running, running with a
  termination signal delivered, or exited with a status.
\<close>

datatype child = Alive | Terminating | Dead int

text \<open>What one \<^verbatim>\<open>c.ping()\<close> does: return a truth value or raise.\<close>

datatype ping_result = Pong bool | PingRaises error

text \<open>The calls the file makes to the outside, in the order they are made.\<close>

datatype event =
    Spawn "string list"
  | Monotonic
  | Poll
  | Ping string
  | Sleep rat
  | Terminate
  | Wait "int option"
  | Kill

record world =
  child :: child
  returncode :: "int option"
  clock_reads :: nat
  checks :: nat
  pings :: nat
  trace :: "event list"

text \<open>
  The answers of the outside. \<open>monotonic env n\<close> is the reading of the \<open>n\<close>-th call of
  \<^verbatim>\<open>time.monotonic()\<close>, a float; \<open>client_error env uri\<close> is what creating
  \<^verbatim>\<open>client.PodmanClient(base_url=uri)\<close> raises, if anything (the module \<^verbatim>\<open>client\<close> is
  not part of the verified file; its constructor refuses a URI whose scheme it does not
  know); \<open>sleep_error env d\<close> is what \<^verbatim>\<open>time.sleep(d)\<close> raises when \<open>d\<close> is beyond the
  range of the platform's timer, if anything;
  \<open>ping_reply env n\<close> is what the \<open>n\<close>-th ping does; \<open>exit_at_check env n\<close> is the exit
  status the \<open>n\<close>-th non-blocking status check finds when the child has exited on its own
  by then; \<open>exit_within env c t\<close> is the exit status a blocking wait bounded by \<open>t\<close>
  (\<open>None\<close>: unbounded) collects from a running child in state \<open>c\<close>, or \<open>None\<close> when the
  child does not exit within the bound; \<open>signal_error env\<close> is what sending a signal to
  the child raises, if anything (\<^verbatim>\<open>PermissionError\<close> for a child that runs as another
  user); \<open>sigkill_status env\<close> is the status of a child that was killed.
  \<open>construct env\<close> is \<^verbatim>\<open>runner.construct("system", "service", uri, time=, cors=)\<close> of
  \<^verbatim>\<open>cli_runner\<close>, which builds the argument list and is not part of the verified file.
\<close>

record env =
  system :: string
  construct :: "string option \<Rightarrow> int option \<Rightarrow> string option \<Rightarrow> string list"
  monotonic :: "nat \<Rightarrow> rat"
  client_error :: "string \<Rightarrow> error option"
  sleep_error :: "rat \<Rightarrow> error option"
  ping_reply :: "nat \<Rightarrow> ping_result"
  exit_at_check :: "nat \<Rightarrow> int option"
  exit_within :: "child \<Rightarrow> int option \<Rightarrow> int option"
  signal_error :: "error option"
  sigkill_status :: int

definition log :: "event \<Rightarrow> world \<Rightarrow> world" where
  "log e w = w\<lparr>trace := trace w @ [e]\<rparr>"

text \<open>\<^verbatim>\<open>time.monotonic()\<close>\<close>

definition monotonic_now :: "env \<Rightarrow> world \<Rightarrow> rat \<times> world" where
  "monotonic_now env w =
     (monotonic env (clock_reads w), log Monotonic (w\<lparr>clock_reads := Suc (clock_reads w)\<rparr>))"

text \<open>
  \<^verbatim>\<open>time.sleep(check_interval)\<close>: the call returns or raises. It raises for an interval
  out of the platform's range, and \<^verbatim>\<open>ValueError\<close> for every other negative interval.
\<close>

definition sleep_raises :: "env \<Rightarrow> rat \<Rightarrow> error option" where
  "sleep_raises env d =
     (case sleep_error env d of
        Some e \<Rightarrow> Some e
      | None \<Rightarrow> (if d < 0 then Some (OtherError ''ValueError'') else None))"

definition sleep :: "env \<Rightarrow> rat \<Rightarrow> world \<Rightarrow> error option \<times> world" where
  "sleep env d w = (sleep_raises env d, log (Sleep d) w)"

text \<open>\<^verbatim>\<open>c.ping()\<close> on the client for \<open>uri\<close>\<close>

definition ping :: "env \<Rightarrow> string \<Rightarrow> world \<Rightarrow> ping_result \<times> world" where
  "ping env uri w = (ping_reply env (pings w), log (Ping uri) (w\<lparr>pings := Suc (pings w)\<rparr>))"

subsection \<open>The process handle\<close>

text \<open>
  The interface of \<^verbatim>\<open>subprocess.Popen\<close> that the file uses, as the standard library
  documents it. The world holds the one child of the session, so the handle argument
  \<^verbatim>\<open>proc\<close> of the source is the world's child.

  The exit status a status check would find now: the cached return code, else the status
  of a child that is dead, else what the child's own course gives at this check.
\<close>

definition exit_status_now :: "env \<Rightarrow> world \<Rightarrow> int option" where
  "exit_status_now env w =
     (case returncode w of
        Some r \<Rightarrow> Some r
      | None \<Rightarrow> (case child w of Dead c \<Rightarrow> Some c | Alive \<Rightarrow> exit_at_check env (checks w)
                 | Terminating \<Rightarrow> exit_at_check env (checks w)))"

text \<open>
  The non-blocking status check behind \<^verbatim>\<open>poll\<close> and \<^verbatim>\<open>send_signal\<close>: nothing
  happens once a return code is cached; otherwise the child is looked at, and a child found
  dead is reaped into \<open>returncode\<close>.
\<close>

definition os_check :: "env \<Rightarrow> world \<Rightarrow> world" where
  "os_check env w =
     (case returncode w of
        Some r \<Rightarrow> w
      | None \<Rightarrow>
          (case exit_status_now env w of
             Some c \<Rightarrow> w\<lparr>child := Dead c, returncode := Some c, checks := Suc (checks w)\<rparr>
           | None \<Rightarrow> w\<lparr>checks := Suc (checks w)\<rparr>))"

text \<open>\<^verbatim>\<open>proc.poll()\<close>\<close>

definition poll :: "env \<Rightarrow> world \<Rightarrow> int option \<times> world" where
  "poll env w = (let w1 = os_check env (log Poll w) in (returncode w1, w1))"

text \<open>
  \<^verbatim>\<open>proc.terminate()\<close>: no signal is sent to a child that a status check finds dead;
  otherwise the signal is sent, which may raise.
\<close>

definition terminate :: "env \<Rightarrow> world \<Rightarrow> error option \<times> world" where
  "terminate env w =
     (let w1 = os_check env (log Terminate w) in
      case returncode w1 of
        Some r \<Rightarrow> (None, w1)
      | None \<Rightarrow>
          (case signal_error env of
             Some e \<Rightarrow> (Some e, w1)
           | None \<Rightarrow> (None, w1\<lparr>child := Terminating\<rparr>)))"

text \<open>\<^verbatim>\<open>proc.kill()\<close>: likewise; a kill signal that is sent is always effective.\<close>

definition kill :: "env \<Rightarrow> world \<Rightarrow> error option \<times> world" where
  "kill env w =
     (let w1 = os_check env (log Kill w) in
      case returncode w1 of
        Some r \<Rightarrow> (None, w1)
      | None \<Rightarrow>
          (case signal_error env of
             Some e \<Rightarrow> (Some e, w1)
           | None \<Rightarrow> (None, w1\<lparr>child := Dead (sigkill_status env)\<rparr>)))"

text \<open>
  \<^verbatim>\<open>proc.wait(timeout=timeout)\<close> begins with \<^verbatim>\<open>endtime = _time() + timeout\<close> when a
  timeout is given, which raises \<^verbatim>\<open>OverflowError\<close> for an int that no float holds.
\<close>

definition endtime_overflows :: "int option \<Rightarrow> bool" where
  "endtime_overflows timeout =
     (case timeout of None \<Rightarrow> False | Some t \<Rightarrow> int_overflows_float t)"

text \<open>
  After that, \<^verbatim>\<open>proc.wait(timeout=timeout)\<close> returns the cached return code, or reaps a
  dead child, or blocks until the child exits. A bounded wait that the child outlives
  raises \<^verbatim>\<open>subprocess.TimeoutExpired\<close>; an unbounded one never returns (\<open>None\<close>).
\<close>

definition wait :: "env \<Rightarrow> int option \<Rightarrow> world \<Rightarrow> ((error + int) \<times> world) option" where
  "wait env timeout w =
     (let w0 = log (Wait timeout) w in
      if endtime_overflows timeout then Some (Inl (OtherError ''OverflowError''), w0)
      else
      case returncode w0 of
        Some r \<Rightarrow> Some (Inr r, w0)
      | None \<Rightarrow>
          (case child w0 of
             Dead c \<Rightarrow> Some (Inr c, w0\<lparr>returncode := Some c\<rparr>)
           | Alive \<Rightarrow>
               (case exit_within env Alive timeout of
                  Some c \<Rightarrow> Some (Inr c, w0\<lparr>child := Dead c, returncode := Some c\<rparr>)
                | None \<Rightarrow>
                    (case timeout of None \<Rightarrow> None | Some t \<Rightarrow> Some (Inl TimeoutExpired, w0)))
           | Terminating \<Rightarrow>
               (case exit_within env Terminating timeout of
                  Some c \<Rightarrow> Some (Inr c, w0\<lparr>child := Dead c, returncode := Some c\<rparr>)
                | None \<Rightarrow>
                    (case timeout of None \<Rightarrow> None | Some t \<Rightarrow> Some (Inl TimeoutExpired, w0)))))"

text \<open>
  A handle is consistent when a cached return code is the status of a dead child.
\<close>

definition consistent :: "world \<Rightarrow> bool" where
  "consistent w = (case returncode w of None \<Rightarrow> True | Some r \<Rightarrow> child w = Dead r)"

subsection \<open>\<^verbatim>\<open>start_service\<close>\<close>

text \<open>
  Modelled from the spec: \<^verbatim>\<open>runner.run_raw(cmd, wait=False)\<close> of \<^verbatim>\<open>cli_runner\<close> is
  the process launcher ("given a command specification, spawns a detached child process
  and returns a handle; does not block for completion").
\<close>

definition run_raw :: "string list \<Rightarrow> world \<Rightarrow> (error + unit) \<times> world" where
  "run_raw cmd w = (Inr (), log (Spawn cmd) (w\<lparr>child := Alive, returncode := None\<rparr>))"

definition start_service ::
  "env \<Rightarrow> string option \<Rightarrow> int option \<Rightarrow> string option \<Rightarrow> world \<Rightarrow> (error + unit) \<times> world"
where
  "start_service env uri time cors w =
     (if system env \<noteq> ''Linux'' then
        (Inl (PodmanError
           ''The `podman system service` command is available only on Linux systems''), w)
      else run_raw (construct env uri time cors) w)"

subsection \<open>\<^verbatim>\<open>stop_service\<close>\<close>

definition stop_service :: "env \<Rightarrow> int option \<Rightarrow> world \<Rightarrow> ((error + int) \<times> world) option" where
  "stop_service env timeout w =
     (case terminate env w of
        (Some e, w1) \<Rightarrow> Some (Inl e, w1)
      | (None, w1) \<Rightarrow>
          (case wait env timeout w1 of
             None \<Rightarrow> None
           | Some (Inr ret, w2) \<Rightarrow> Some (Inr ret, w2)
           | Some (Inl e, w2) \<Rightarrow>
               (if e = TimeoutExpired then
                  (case kill env w2 of
                     (Some e', w3) \<Rightarrow> Some (Inl e', w3)
                   | (None, w3) \<Rightarrow>
                       (case wait env None w3 of
                          None \<Rightarrow> None
                        | Some (Inr ret, w4) \<Rightarrow> Some (Inr ret, w4)
                        | Some (Inl e', w4) \<Rightarrow> Some (Inl e', w4)))
                else Some (Inl e, w2))))"

subsection \<open>\<^verbatim>\<open>wait_for_service\<close>\<close>

text \<open>
  The loop of lines 158 to 171 may run forever, so it is a partial function: \<open>None\<close>
  is the wait that never ends. How one pass through the body of \<^verbatim>\<open>while True\<close>
  ends: with \<^verbatim>\<open>break\<close>, with an exception, or by reaching \<^verbatim>\<open>time.sleep\<close>.
\<close>

datatype outcome = Break | Raise error | Next

text \<open>The part of the loop body after the deadline check: lines 162 to 170.\<close>

definition poll_then_ping :: "env \<Rightarrow> string \<Rightarrow> world \<Rightarrow> outcome \<times> world" where
  "poll_then_ping env uri w =
     (case poll env w of
        (Some ret, w2) \<Rightarrow> (Raise (ServiceTerminated ret), w2)
      | (None, w2) \<Rightarrow>
          (case ping env uri w2 of
             (Pong b, w3) \<Rightarrow> (if b then Break else Next, w3)
           | (PingRaises e, w3) \<Rightarrow> (if is_APIError e then Next else Raise e, w3)))"

text \<open>
  The loop body. \<^verbatim>\<open>if timeout and time.monotonic() - start > timeout\<close>: the clock is
  read only when \<open>timeout\<close> is truthy, that is neither \<^verbatim>\<open>None\<close> nor \<open>0\<close>; the
  difference is a float subtraction.
\<close>

definition iteration :: "env \<Rightarrow> string \<Rightarrow> int option \<Rightarrow> rat \<Rightarrow> world \<Rightarrow> outcome \<times> world" where
  "iteration env uri timeout start w =
     (case timeout of
        None \<Rightarrow> poll_then_ping env uri w
      | Some t \<Rightarrow>
          (if t = 0 then poll_then_ping env uri w
           else
             (case monotonic_now env w of
                (now, w1) \<Rightarrow>
                  (if float_sub_gt now start t then (Raise (ServiceTimeout t), w1)
                   else poll_then_ping env uri w1))))"

partial_function (option) wait_loop ::
  "env \<Rightarrow> string \<Rightarrow> int option \<Rightarrow> rat \<Rightarrow> rat \<Rightarrow> world \<Rightarrow> ((error + unit) \<times> world) option"
where
  "wait_loop env uri timeout check_interval start w =
     (case iteration env uri timeout start w of
        (Break, w') \<Rightarrow> Some (Inr (), w')
      | (Raise e, w') \<Rightarrow> Some (Inl e, w')
      | (Next, w') \<Rightarrow>
          (case sleep env check_interval w' of
             (Some e, w'') \<Rightarrow> Some (Inl e, w'')
           | (None, w'') \<Rightarrow> wait_loop env uri timeout check_interval start w''))"

declare wait_loop.simps [code]

text \<open>
  Lines 156 and 157: the clock is read once, then the client is created, which may raise
  before the loop is entered. Creating the client and leaving its \<^verbatim>\<open>with\<close> block make
  no call that the world records.
\<close>

definition wait_for_service ::
  "env \<Rightarrow> string \<Rightarrow> int option \<Rightarrow> rat \<Rightarrow> world \<Rightarrow> ((error + unit) \<times> world) option"
where
  "wait_for_service env uri timeout check_interval w =
     (case monotonic_now env w of
        (start, w1) \<Rightarrow>
          (case client_error env uri of
             Some e \<Rightarrow> Some (Inl e, w1)
           | None \<Rightarrow> wait_loop env uri timeout check_interval start w1))"

subsection \<open>\<^verbatim>\<open>service\<close>\<close>

text \<open>
  \<^verbatim>\<open>service\<close> is a generator under \<^verbatim>\<open>contextlib.contextmanager\<close>. Entering the
  \<^verbatim>\<open>with\<close> statement runs it up to \<^verbatim>\<open>yield proc\<close> (\<open>service_enter\<close>). Leaving
  the block resumes it at the \<^verbatim>\<open>yield\<close>: by \<^verbatim>\<open>next\<close> when the block ended
  normally (\<open>service_resume\<close>), and by \<^verbatim>\<open>throw\<close>, which raises the block's exception
  at the \<^verbatim>\<open>yield\<close>, when the block raised (\<open>service_throw\<close>). The default
  \<^verbatim>\<open>check_interval\<close> of \<^verbatim>\<open>wait_for_service\<close> is \<open>0.1\<close>.
\<close>

definition service_enter ::
  "env \<Rightarrow> string \<Rightarrow> string option \<Rightarrow> int option \<Rightarrow> int option \<Rightarrow> world
     \<Rightarrow> ((error + unit) \<times> world) option"
where
  "service_enter env uri cors ping_timeout stop_timeout w =
     (case start_service env (Some uri) (Some 0) cors w of
        (Inl e, w1) \<Rightarrow> Some (Inl e, w1)
      | (Inr proc, w1) \<Rightarrow>
          (case wait_for_service env uri ping_timeout (1 / 10) w1 of
             None \<Rightarrow> None
           | Some (Inr u, w2) \<Rightarrow> Some (Inr proc, w2)
           | Some (Inl e, w2) \<Rightarrow>
               (if is_readiness_failure e then
                  (case stop_service env stop_timeout w2 of
                     None \<Rightarrow> None
                   | Some (Inl e', w3) \<Rightarrow> Some (Inl e', w3)
                   | Some (Inr ret, w3) \<Rightarrow> Some (Inl e, w3))
                else Some (Inl e, w2))))"

text \<open>Resuming after \<^verbatim>\<open>yield proc\<close>: line 206, then the generator ends.\<close>

definition service_resume ::
  "env \<Rightarrow> int option \<Rightarrow> world \<Rightarrow> ((error + unit) \<times> world) option"
where
  "service_resume env stop_timeout w =
     (case stop_service env stop_timeout w of
        None \<Rightarrow> None
      | Some (Inl e', w') \<Rightarrow> Some (Inl e', w')
      | Some (Inr ret, w') \<Rightarrow> Some (Inr (), w'))"

text \<open>
  An exception \<open>e\<close> raised at \<^verbatim>\<open>yield proc\<close>: no \<^verbatim>\<open>try\<close> encloses the
  \<^verbatim>\<open>yield\<close>, so \<open>e\<close> leaves the generator at once and line 206 does not run.
\<close>

definition service_throw :: "error \<Rightarrow> world \<Rightarrow> error \<times> world" where
  "service_throw e w = (e, w)"

text \<open>
  The managed session \<^verbatim>\<open>with cmd.service(uri, cors, ping_timeout, stop_timeout) as proc: body\<close>,
  where the block \<open>body\<close> is a function of the world that returns a value or raises. An
  exception of the block is thrown into the generator, and what the generator raises
  leaves the statement.
\<close>

definition service ::
  "env \<Rightarrow> string \<Rightarrow> string option \<Rightarrow> int option \<Rightarrow> int option
     \<Rightarrow> (world \<Rightarrow> (error + 'a) \<times> world) \<Rightarrow> world \<Rightarrow> ((error + 'a) \<times> world) option"
where
  "service env uri cors ping_timeout stop_timeout body w =
     (case service_enter env uri cors ping_timeout stop_timeout w of
        None \<Rightarrow> None
      | Some (Inl e, w1) \<Rightarrow> Some (Inl e, w1)
      | Some (Inr proc, w1) \<Rightarrow>
          (case body w1 of
             (Inl e, w2) \<Rightarrow> (case service_throw e w2 of (e', w3) \<Rightarrow> Some (Inl e', w3))
           | (Inr v, w2) \<Rightarrow>
               (case service_resume env stop_timeout w2 of
                  None \<Rightarrow> None
                | Some (Inl e', w3) \<Rightarrow> Some (Inl e', w3)
                | Some (Inr u, w3) \<Rightarrow> Some (Inr v, w3))))"

subsection \<open>Notions used in the statements\<close>

text \<open>The events that the readiness wait produces.\<close>

fun readiness_event :: "event \<Rightarrow> bool" where
  "readiness_event Monotonic = True"
| "readiness_event Poll = True"
| "readiness_event (Ping u) = True"
| "readiness_event (Sleep d) = True"
| "readiness_event e = False"

text \<open>
  What an operation of the readiness wait may do to the world: it extends the trace by
  readiness events, keeps a consistent handle consistent, and sends no termination signal.
\<close>

definition step_ok :: "world \<Rightarrow> world \<Rightarrow> bool" where
  "step_ok w w' =
     ((\<exists>tr. trace w' = trace w @ tr \<and> list_all readiness_event tr)
      \<and> (consistent w \<longrightarrow> consistent w')
      \<and> (child w \<noteq> Terminating \<longrightarrow> child w' \<noteq> Terminating))"

text \<open>
  The value of the condition on line 159 for a loop pass that begins in world \<open>w\<close>:
  \<^verbatim>\<open>timeout and time.monotonic() - start > timeout\<close>.
\<close>

definition deadline_expired :: "env \<Rightarrow> int option \<Rightarrow> rat \<Rightarrow> world \<Rightarrow> bool" where
  "deadline_expired env timeout start w =
     (case timeout of
        None \<Rightarrow> False
      | Some t \<Rightarrow> t \<noteq> 0 \<and> float_sub_gt (monotonic env (clock_reads w)) start t)"

subsection \<open>Concrete worlds\<close>

text \<open>
  A Linux host whose clock advances one second per reading, whose client accepts every
  URI, whose \<^verbatim>\<open>time.sleep\<close> refuses negative intervals only, whose endpoint answers every
  ping, and whose child can be signalled but neither exits on its own nor reacts to a
  termination signal.
  Variants: a clock that advances two seconds per reading, an endpoint whose ping raises
  an exception that is not an \<open>APIError\<close>, an endpoint that is unreachable at the first
  ping and answers the second, a child that is found exited at the first status check, and
  a host that is not Linux.
\<close>

definition host :: env where
  "host = \<lparr>system = ''Linux'',
           construct = (\<lambda>uri time cors. [''system'', ''service'']),
           monotonic = (\<lambda>n. of_nat n),
           client_error = (\<lambda>uri. None),
           sleep_error = (\<lambda>d. None),
           ping_reply = (\<lambda>n. Pong True),
           exit_at_check = (\<lambda>n. None),
           exit_within = (\<lambda>c t. None),
           signal_error = None,
           sigkill_status = - 9\<rparr>"

definition slow_host :: env where
  "slow_host = host\<lparr>monotonic := (\<lambda>n. 2 * of_nat n)\<rparr>"

definition broken_endpoint :: env where
  "broken_endpoint = host\<lparr>ping_reply := (\<lambda>n. PingRaises (OtherError ''ValueError''))\<rparr>"

definition warming_up :: env where
  "warming_up =
     host\<lparr>ping_reply := (\<lambda>n. if n = 0 then PingRaises (APIError ''unreachable'') else Pong True)\<rparr>"

definition short_lived :: env where
  "short_lived = host\<lparr>exit_at_check := (\<lambda>n. Some 125)\<rparr>"

definition darwin :: env where
  "darwin = host\<lparr>system := ''Darwin''\<rparr>"

definition podman_sock :: string where
  "podman_sock = ''unix:///run/podman.sock''"

text \<open>An int that no float holds.\<close>

definition huge :: int where
  "huge = 2 ^ 1024"

text \<open>
  A world in which nothing has happened yet, one in which the child has exited with
  status 3 and has not been reaped, and the world right after the service was started.
\<close>

definition fresh :: world where
  "fresh = \<lparr>child = Alive, returncode = None, clock_reads = 0, checks = 0, pings = 0, trace = []\<rparr>"

definition crashed :: world where
  "crashed = fresh\<lparr>child := Dead 3\<rparr>"

definition started :: world where
  "started = fresh\<lparr>trace := [Spawn [''system'', ''service'']]\<rparr>"

text \<open>A \<^verbatim>\<open>with\<close> block that raises \<^verbatim>\<open>RuntimeError\<close> at once.\<close>

definition failing_block :: "world \<Rightarrow> (error + unit) \<times> world" where
  "failing_block w = (Inl (OtherError ''RuntimeError''), w)"

section \<open>Properties\<close>

subsection \<open>The process handle\<close>

lemma trace_log [simp]: "trace (log e w) = trace w @ [e]"
  by (simp add: log_def)

lemma child_log [simp]: "child (log e w) = child w"
  by (simp add: log_def)

lemma returncode_log [simp]: "returncode (log e w) = returncode w"
  by (simp add: log_def)

lemma pings_log [simp]: "pings (log e w) = pings w"
  by (simp add: log_def)

lemma consistent_log [simp]: "consistent (log e w) = consistent w"
  by (simp add: consistent_def log_def split: option.splits)

lemma exit_status_now_log [simp]: "exit_status_now env (log e w) = exit_status_now env w"
  by (simp add: exit_status_now_def log_def split: option.splits child.splits)

lemma os_check_trace [simp]: "trace (os_check env w) = trace w"
  by (simp add: os_check_def split: option.splits)

lemma os_check_pings [simp]: "pings (os_check env w) = pings w"
  by (simp add: os_check_def split: option.splits)

lemma os_check_consistent: "consistent w \<Longrightarrow> consistent (os_check env w)"
  by (simp add: os_check_def consistent_def split: option.splits)

lemma os_check_returncode [simp]:
  "returncode (os_check env w) = exit_status_now env w"
  by (simp add: os_check_def exit_status_now_def split: option.splits child.splits)

lemma os_check_child_dead:
  "consistent w \<Longrightarrow> exit_status_now env w = Some c \<Longrightarrow> child (os_check env w) = Dead c"
  by (auto simp: os_check_def exit_status_now_def consistent_def split: option.splits child.splits)

lemma os_check_child_live:
  "exit_status_now env w = None \<Longrightarrow> child (os_check env w) = child w"
  by (auto simp: os_check_def exit_status_now_def split: option.splits child.splits)

lemma exit_status_now_None_live:
  "exit_status_now env w = None \<Longrightarrow> child w = Alive \<or> child w = Terminating"
  by (auto simp: exit_status_now_def split: option.splits child.splits)

lemma poll_eq: "poll env w = (exit_status_now env w, os_check env (log Poll w))"
  by (simp add: poll_def Let_def)

lemma terminate_trace [simp]: "trace (snd (terminate env w)) = trace w @ [Terminate]"
  by (simp add: terminate_def Let_def split: option.splits)

lemma terminate_returncode [simp]:
  "returncode (snd (terminate env w)) = exit_status_now env w"
  by (simp add: terminate_def Let_def split: option.splits)

lemma terminate_consistent: "consistent w \<Longrightarrow> consistent (snd (terminate env w))"
  by (auto simp: terminate_def Let_def consistent_def os_check_def split: option.splits)

lemma terminate_child_dead:
  "consistent w \<Longrightarrow> exit_status_now env w = Some c \<Longrightarrow>
     child (snd (terminate env w)) = Dead c \<and> fst (terminate env w) = None"
  by (simp add: terminate_def Let_def os_check_child_dead)

lemma terminate_child_live:
  "exit_status_now env w = None \<Longrightarrow> signal_error env = None \<Longrightarrow>
     child (snd (terminate env w)) = Terminating \<and> fst (terminate env w) = None"
  by (simp add: terminate_def Let_def)

lemma terminate_fails:
  "exit_status_now env w = None \<Longrightarrow> signal_error env = Some e \<Longrightarrow>
     terminate env w = (Some e, os_check env (log Terminate w))"
  by (simp add: terminate_def Let_def)

lemma kill_trace [simp]: "trace (snd (kill env w)) = trace w @ [Kill]"
  by (simp add: kill_def Let_def split: option.splits)

lemma kill_dead:
  "consistent w \<Longrightarrow> fst (kill env w) = None \<Longrightarrow>
     \<exists>c. child (snd (kill env w)) = Dead c \<and> consistent (snd (kill env w))"
  by (auto simp: kill_def Let_def consistent_def os_check_def exit_status_now_def
      split: option.splits child.splits)

lemma kill_ok: "signal_error env = None \<Longrightarrow> fst (kill env w) = None"
  by (simp add: kill_def Let_def split: option.splits)

lemma wait_trace:
  "wait env timeout w = Some (r, w') \<Longrightarrow> trace w' = trace w @ [Wait timeout]"
  by (auto simp: wait_def Let_def log_def split: option.splits child.splits if_splits)

lemma wait_overflow:
  "endtime_overflows timeout \<Longrightarrow>
   wait env timeout w = Some (Inl (OtherError ''OverflowError''), log (Wait timeout) w)"
  by (simp add: wait_def Let_def)

lemma endtime_overflows_None [simp]: "\<not> endtime_overflows None"
  by (simp add: endtime_overflows_def)

lemma wait_dead:
  "consistent w \<Longrightarrow> child w = Dead c \<Longrightarrow> \<not> endtime_overflows timeout \<Longrightarrow>
   wait env timeout w = Some (Inr c, (log (Wait timeout) w)\<lparr>returncode := Some c\<rparr>)"
  by (auto simp: wait_def Let_def consistent_def log_def split: option.splits)

lemma wait_terminating:
  "returncode w = None \<Longrightarrow> child w = Terminating \<Longrightarrow> \<not> endtime_overflows timeout \<Longrightarrow>
   wait env timeout w =
     (case exit_within env Terminating timeout of
        Some c \<Rightarrow> Some (Inr c, (log (Wait timeout) w)\<lparr>child := Dead c, returncode := Some c\<rparr>)
      | None \<Rightarrow> (case timeout of None \<Rightarrow> None
                 | Some t \<Rightarrow> Some (Inl TimeoutExpired, log (Wait timeout) w)))"
  by (simp add: wait_def Let_def)

lemma wait_consistent:
  "consistent w \<Longrightarrow> wait env timeout w = Some (r, w') \<Longrightarrow> consistent w'"
  by (auto simp: wait_def Let_def consistent_def log_def split: option.splits child.splits if_splits)

lemma wait_after_kill:
  assumes "consistent w" and "fst (kill env w) = None"
  shows "\<exists>c w'. wait env None (snd (kill env w)) = Some (Inr c, w') \<and> child w' = Dead c
           \<and> returncode w' = Some c \<and> trace w' = trace w @ [Kill, Wait None]"
proof -
  obtain c where c: "child (snd (kill env w)) = Dead c" "consistent (snd (kill env w))"
    using kill_dead [OF assms] by blast
  then have "wait env None (snd (kill env w)) =
      Some (Inr c, (log (Wait None) (snd (kill env w)))\<lparr>returncode := Some c\<rparr>)"
    by (simp add: wait_dead)
  with c show ?thesis by simp
qed

subsection \<open>Starting the service\<close>

lemma start_service_started:
  assumes "start_service env uri time cors w = (Inr u, w1)"
  shows "child w1 = Alive \<and> returncode w1 = None \<and> consistent w1
         \<and> trace w1 = trace w @ [Spawn (construct env uri time cors)]"
  using assms
  by (auto simp: start_service_def run_raw_def consistent_def log_def split: if_splits)

text \<open>
  Claim C9. On a host whose \<^verbatim>\<open>platform.system()\<close> is not \<^verbatim>\<open>Linux\<close>,
  \<open>start_service\<close> raises \<open>PodmanError\<close> and leaves the world as it was: the launcher
  is not called (no \<open>Spawn\<close> is recorded) and no child is created.
\<close>

theorem start_service_off_linux:
  assumes "system env \<noteq> ''Linux''"
  shows "start_service env uri time cors w =
           (Inl (PodmanError
              ''The `podman system service` command is available only on Linux systems''), w)"
  using assms by (simp add: start_service_def)

theorem start_service_off_linux_witness:
  "system darwin \<noteq> ''Linux'' \<and>
   start_service darwin (Some podman_sock) (Some 0) None fresh =
     (Inl (PodmanError
        ''The `podman system service` command is available only on Linux systems''), fresh)
   \<and> trace fresh = []"
proof -
  have h: "system darwin \<noteq> ''Linux''"
    by (simp add: darwin_def host_def)
  from start_service_off_linux [OF h, of "Some podman_sock" "Some 0" None fresh] h
  show ?thesis by (simp add: fresh_def)
qed

subsection \<open>Stopping the service\<close>

lemma stop_service_signalled:
  assumes "fst (terminate env w) = None"
  shows "stop_service env timeout w =
     (case wait env timeout (snd (terminate env w)) of
        None \<Rightarrow> None
      | Some (Inr ret, w2) \<Rightarrow> Some (Inr ret, w2)
      | Some (Inl e, w2) \<Rightarrow>
          (if e = TimeoutExpired then
             (case fst (kill env w2) of
                Some e' \<Rightarrow> Some (Inl e', snd (kill env w2))
              | None \<Rightarrow>
                  (case wait env None (snd (kill env w2)) of
                     None \<Rightarrow> None
                   | Some (Inr ret, w4) \<Rightarrow> Some (Inr ret, w4)
                   | Some (Inl e', w4) \<Rightarrow> Some (Inl e', w4)))
           else Some (Inl e, w2)))"
proof (cases "terminate env w")
  case (Pair te w1)
  with assms have "te = None" by simp
  with Pair show ?thesis
    by (auto simp: stop_service_def split: option.splits sum.splits prod.splits)
qed

lemma stop_service_overflow:
  assumes "fst (terminate env w) = None" and "endtime_overflows timeout"
  shows "stop_service env timeout w =
           Some (Inl (OtherError ''OverflowError''), log (Wait timeout) (snd (terminate env w)))"
  using assms(2) by (simp add: stop_service_signalled [OF assms(1)] wait_overflow)

lemma stop_service_signal_fails:
  assumes "exit_status_now env w = None" and "signal_error env = Some e"
  shows "stop_service env timeout w = Some (Inl e, os_check env (log Terminate w))"
  using assms by (simp add: stop_service_def terminate_fails)

lemma stop_service_dead:
  assumes "consistent w" and "exit_status_now env w = Some c"
    and "\<not> endtime_overflows timeout"
  shows "stop_service env timeout w =
           Some (Inr c, (log (Wait timeout) (snd (terminate env w)))\<lparr>returncode := Some c\<rparr>)"
proof -
  have t: "child (snd (terminate env w)) = Dead c" "fst (terminate env w) = None"
    using terminate_child_dead [OF assms(1,2)] by simp_all
  moreover have "consistent (snd (terminate env w))"
    using assms(1) by (rule terminate_consistent)
  ultimately have "wait env timeout (snd (terminate env w)) =
      Some (Inr c, (log (Wait timeout) (snd (terminate env w)))\<lparr>returncode := Some c\<rparr>)"
    using assms(3) by (simp add: wait_dead)
  with t(2) show ?thesis
    by (simp add: stop_service_signalled)
qed

lemma stop_service_live:
  assumes "exit_status_now env w = None" and "signal_error env = None"
    and "\<not> endtime_overflows timeout"
  shows "stop_service env timeout w =
     (case exit_within env Terminating timeout of
        Some c \<Rightarrow>
          Some (Inr c, (log (Wait timeout) (snd (terminate env w)))
                         \<lparr>child := Dead c, returncode := Some c\<rparr>)
      | None \<Rightarrow>
          (case timeout of
             None \<Rightarrow> None
           | Some t \<Rightarrow>
               wait env None (snd (kill env (log (Wait timeout) (snd (terminate env w)))))))"
proof -
  have t: "returncode (snd (terminate env w)) = None"
    "child (snd (terminate env w)) = Terminating" "fst (terminate env w) = None"
    using assms(1) terminate_child_live [OF assms(1,2)] by simp_all
  from t(1,2) have "wait env timeout (snd (terminate env w)) =
     (case exit_within env Terminating timeout of
        Some c \<Rightarrow>
          Some (Inr c, (log (Wait timeout) (snd (terminate env w)))
                         \<lparr>child := Dead c, returncode := Some c\<rparr>)
      | None \<Rightarrow>
          (case timeout of
             None \<Rightarrow> None
           | Some t \<Rightarrow> Some (Inl TimeoutExpired, log (Wait timeout) (snd (terminate env w)))))"
    using assms(3) by (rule wait_terminating)
  moreover have "fst (kill env w') = None" for w'
    using assms(2) by (rule kill_ok)
  ultimately show ?thesis
    by (auto simp: stop_service_signalled [OF t(3)] split: option.splits sum.splits prod.splits)
qed

lemma stop_service_returns:
  assumes "stop_service env timeout w = Some (r, w')"
  shows "count_list (trace w') Terminate = Suc (count_list (trace w) Terminate)"
proof -
  have t: "trace (snd (terminate env w)) = trace w @ [Terminate]"
    by simp
  have "\<exists>tr. trace w' = trace w @ Terminate # tr \<and> count_list tr Terminate = 0"
  proof (cases "terminate env w")
    case (Pair te w1)
    with t have t1: "trace w1 = trace w @ [Terminate]" by simp
    show ?thesis
    proof (cases te)
      case (Some e)
      with Pair assms t1 show ?thesis by (simp add: stop_service_def)
    next
      case None
      show ?thesis
      proof (cases "wait env timeout w1")
        case wn: None
        with Pair None assms show ?thesis by (simp add: stop_service_def)
      next
        case (Some y)
        obtain r1 w2 where y: "y = (r1, w2)" by (cases y)
        from wait_trace [of env timeout w1 r1 w2] Some y t1
        have t2: "trace w2 = trace w @ [Terminate, Wait timeout]" by simp
        show ?thesis
        proof (cases "r1 = Inl TimeoutExpired")
          case False
          with Pair None Some y assms have "w' = w2"
            by (auto simp: stop_service_def split: sum.splits if_splits)
          with t2 show ?thesis by simp
        next
          case True
          obtain ke w3 where k: "kill env w2 = (ke, w3)" by (cases "kill env w2")
          have "trace (snd (kill env w2)) = trace w2 @ [Kill]" by simp
          with k t2 have t3: "trace w3 = trace w @ [Terminate, Wait timeout, Kill]" by simp
          show ?thesis
          proof (cases ke)
            case (Some e')
            with Pair None \<open>wait env timeout w1 = Some y\<close> y True k assms have "w' = w3"
              by (simp add: stop_service_def)
            with t3 show ?thesis by simp
          next
            case kn: None
            with Pair None \<open>wait env timeout w1 = Some y\<close> y True k assms
            obtain r4 where "wait env None w3 = Some (r4, w')"
              by (auto simp: stop_service_def split: option.splits sum.splits)
            from wait_trace [OF this] t3 show ?thesis by simp
          qed
        qed
      qed
    qed
  qed
  then show ?thesis by auto
qed

lemma stop_service_exit_code:
  assumes "consistent w" and "stop_service env timeout w = Some (r, w')"
    and "\<not> endtime_overflows timeout"
    and "signal_error env = None \<or> exit_status_now env w \<noteq> None"
  shows "\<exists>code. r = Inr code"
proof (cases "exit_status_now env w")
  case (Some c)
  from stop_service_dead [OF assms(1) Some assms(3)] assms(2) show ?thesis
    by auto
next
  case None
  with assms(4) have sig: "signal_error env = None" by simp
  note st = stop_service_live [OF None sig assms(3)]
  show ?thesis
  proof (cases "exit_within env Terminating timeout")
    case (Some c)
    with st assms(2) show ?thesis by auto
  next
    case nx: None
    show ?thesis
    proof (cases timeout)
      case None
      with nx st assms(2) show ?thesis by simp
    next
      case (Some t)
      have "consistent (log (Wait timeout) (snd (terminate env w)))"
        using assms(1) by (simp add: terminate_consistent)
      from wait_after_kill [OF this kill_ok [OF sig]]
      obtain c w4 where
        "wait env None (snd (kill env (log (Wait timeout) (snd (terminate env w)))))
           = Some (Inr c, w4)"
        by blast
      with nx Some st assms(2) show ?thesis by auto
    qed
  qed
qed

lemma stop_service_total:
  assumes "consistent w" and "timeout \<noteq> None \<or> exit_status_now env w \<noteq> None"
  shows "\<exists>r w'. stop_service env timeout w = Some (r, w')"
proof (cases "exit_status_now env w")
  case (Some c)
  show ?thesis
  proof (cases "endtime_overflows timeout")
    case True
    from terminate_child_dead [OF assms(1) Some] have "fst (terminate env w) = None" by simp
    from stop_service_overflow [OF this True] show ?thesis by blast
  next
    case False
    from stop_service_dead [OF assms(1) Some False] show ?thesis by blast
  qed
next
  case None
  show ?thesis
  proof (cases "signal_error env")
    case (Some e)
    from stop_service_signal_fails [OF None Some] show ?thesis by blast
  next
    case sig: None
    show ?thesis
    proof (cases "endtime_overflows timeout")
      case True
      from terminate_child_live [OF None sig] have "fst (terminate env w) = None" by simp
      from stop_service_overflow [OF this True] show ?thesis by blast
    next
      case False
      note st = stop_service_live [OF None sig False]
      have "consistent (log (Wait timeout) (snd (terminate env w)))"
        using assms(1) by (simp add: terminate_consistent)
      from wait_after_kill [OF this kill_ok [OF sig]]
      obtain c w4 where
        "wait env None (snd (kill env (log (Wait timeout) (snd (terminate env w)))))
           = Some (Inr c, w4)"
        by blast
      with st assms(2) None show ?thesis
        by (auto split: option.splits)
    qed
  qed
qed

lemma huge_overflows: "endtime_overflows (Some huge)"
  by (simp add: endtime_overflows_def int_overflows_float_def huge_def)

lemma five_in_range: "\<not> endtime_overflows (Some 5)"
  by (simp add: endtime_overflows_def int_overflows_float_def)

text \<open>
  Claim C7, as amended. For every call of \<open>stop_service\<close> on a consistent handle, with no
  stop timeout or one that a float holds, for a child that has exited or that the caller
  may signal: \<open>terminate\<close> is called first, whatever the state of the child, and raises
  nothing, and then \<open>wait\<close> is called with the stop timeout. Either that wait returns
  the exit status, which is returned; or it raises \<open>TimeoutExpired\<close>, and then \<open>kill\<close>
  and a \<open>wait\<close> without timeout follow, whose result is returned. In both cases the
  returned value is the status of the dead child and the return code of the handle. The
  call does not return only when no stop timeout is given and the first wait never
  returns.
\<close>

theorem stop_service_escalation:
  assumes "consistent w" and "\<not> endtime_overflows timeout"
    and "signal_error env = None \<or> exit_status_now env w \<noteq> None"
  shows "fst (terminate env w) = None \<and>
         ((\<exists>code w'. stop_service env timeout w = Some (Inr code, w')
            \<and> child w' = Dead code \<and> returncode w' = Some code
            \<and> (wait env timeout (snd (terminate env w)) = Some (Inr code, w')
                  \<and> trace w' = trace w @ [Terminate, Wait timeout]
               \<or> (\<exists>w2. wait env timeout (snd (terminate env w))
                           = Some (Inl TimeoutExpired, w2))
                  \<and> trace w' = trace w @ [Terminate, Wait timeout, Kill, Wait None]))
          \<or> (stop_service env timeout w = None \<and> timeout = None
               \<and> wait env timeout (snd (terminate env w)) = None))"
proof (cases "exit_status_now env w")
  case (Some c)
  have t: "child (snd (terminate env w)) = Dead c" "fst (terminate env w) = None"
    using terminate_child_dead [OF assms(1) Some] by simp_all
  have "consistent (snd (terminate env w))"
    using assms(1) by (rule terminate_consistent)
  with t(1) have "wait env timeout (snd (terminate env w)) =
      Some (Inr c, (log (Wait timeout) (snd (terminate env w)))\<lparr>returncode := Some c\<rparr>)"
    using assms(2) by (simp add: wait_dead)
  moreover note stop_service_dead [OF assms(1) Some assms(2)] t
  ultimately show ?thesis by simp
next
  case None
  with assms(3) have sig: "signal_error env = None" by simp
  have rc: "returncode (snd (terminate env w)) = None"
    "child (snd (terminate env w)) = Terminating"
    and ok: "fst (terminate env w) = None"
    using None terminate_child_live [OF None sig] by simp_all
  note w1 = wait_terminating [OF rc assms(2), of env]
  note st = stop_service_live [OF None sig assms(2)]
  show ?thesis
  proof (cases "exit_within env Terminating timeout")
    case (Some c)
    with w1 st ok show ?thesis by simp
  next
    case nx: None
    show ?thesis
    proof (cases timeout)
      case None
      with nx w1 st ok show ?thesis by simp
    next
      case (Some t)
      have "consistent (log (Wait timeout) (snd (terminate env w)))"
        using assms(1) by (simp add: terminate_consistent)
      from wait_after_kill [OF this kill_ok [OF sig]]
      obtain c w' where
        "wait env None (snd (kill env (log (Wait timeout) (snd (terminate env w)))))
           = Some (Inr c, w')"
        "child w' = Dead c" "returncode w' = Some c"
        "trace w' = trace (log (Wait timeout) (snd (terminate env w))) @ [Kill, Wait None]"
        by blast
      with nx Some w1 st ok show ?thesis by simp
    qed
  qed
qed

theorem stop_service_escalation_witness:
  "consistent fresh \<and> \<not> endtime_overflows (Some 5) \<and> signal_error host = None \<and>
   fst (terminate host fresh) = None \<and>
   ((\<exists>code w'. stop_service host (Some 5) fresh = Some (Inr code, w')
            \<and> child w' = Dead code \<and> returncode w' = Some code
            \<and> (wait host (Some 5) (snd (terminate host fresh)) = Some (Inr code, w')
                  \<and> trace w' = trace fresh @ [Terminate, Wait (Some 5)]
               \<or> (\<exists>w2. wait host (Some 5) (snd (terminate host fresh))
                           = Some (Inl TimeoutExpired, w2))
                  \<and> trace w' = trace fresh @ [Terminate, Wait (Some 5), Kill, Wait None]))
         \<or> (stop_service host (Some 5) fresh = None \<and> Some (5::int) = None
              \<and> wait host (Some 5) (snd (terminate host fresh)) = None))
   \<and> stop_service host (Some 5) fresh =
       Some (Inr (- 9),
             \<lparr>child = Dead (- 9), returncode = Some (- 9), clock_reads = 0, checks = 2,
                pings = 0, trace = [Terminate, Wait (Some 5), Kill, Wait None]\<rparr>)"
proof -
  have h: "consistent fresh"
    by (simp add: consistent_def fresh_def)
  have s: "signal_error host = None"
    by (simp add: host_def)
  have run: "stop_service host (Some 5) fresh =
       Some (Inr (- 9),
             \<lparr>child = Dead (- 9), returncode = Some (- 9), clock_reads = 0, checks = 2,
                pings = 0, trace = [Terminate, Wait (Some 5), Kill, Wait None]\<rparr>)"
    by (simp add: stop_service_def terminate_def kill_def wait_def os_check_def
        exit_status_now_def log_def host_def fresh_def Let_def five_in_range)
  from stop_service_escalation [OF h five_in_range, of host] h five_in_range s run
  show ?thesis by blast
qed

text \<open>
  The claim as stated fails for a stop timeout that no float holds: \<open>terminate\<close> is
  called, \<open>wait\<close> raises \<^verbatim>\<open>OverflowError\<close> before it waits, which \<open>stop_service\<close> does
  not catch, and no exit code is returned.
\<close>

theorem huge_stop_timeout_counterexample:
  "consistent fresh \<and>
   stop_service host (Some huge) fresh =
     Some (Inl (OtherError ''OverflowError''),
           \<lparr>child = Terminating, returncode = None, clock_reads = 0, checks = 1, pings = 0,
              trace = [Terminate, Wait (Some huge)]\<rparr>)"
  by (simp add: stop_service_def wait_overflow [OF huge_overflows] consistent_def terminate_def
      os_check_def exit_status_now_def log_def host_def fresh_def Let_def)

text \<open>
  Claim C8, as amended. Stopping a child that has already exited with status \<open>c\<close>, with
  no stop timeout or one that a float holds, returns \<open>c\<close> and raises nothing; the child
  stays dead with status \<open>c\<close>, and stopping it once more returns \<open>c\<close> again.
\<close>

theorem stop_service_already_exited:
  assumes "consistent w" and "exit_status_now env w = Some c"
    and "\<not> endtime_overflows timeout"
  shows "\<exists>w'. stop_service env timeout w = Some (Inr c, w') \<and> child w' = Dead c
           \<and> (\<exists>w''. stop_service env timeout w' = Some (Inr c, w'') \<and> child w'' = Dead c)"
proof -
  let ?w' = "(log (Wait timeout) (snd (terminate env w)))\<lparr>returncode := Some c\<rparr>"
  have first: "stop_service env timeout w = Some (Inr c, ?w')"
    using assms by (rule stop_service_dead)
  have dead: "child ?w' = Dead c"
    using assms(1,2) by (simp add: terminate_child_dead)
  then have cons: "consistent ?w'"
    by (simp add: consistent_def)
  have now: "exit_status_now env ?w' = Some c"
    by (simp add: exit_status_now_def)
  let ?w'' = "(log (Wait timeout) (snd (terminate env ?w')))\<lparr>returncode := Some c\<rparr>"
  have second: "stop_service env timeout ?w' = Some (Inr c, ?w'')"
    using cons now assms(3) by (rule stop_service_dead)
  have "child ?w'' = Dead c"
    using cons now by (simp add: terminate_child_dead)
  with first dead second show ?thesis by blast
qed

theorem stop_service_already_exited_witness:
  "consistent crashed \<and> exit_status_now host crashed = Some 3
   \<and> \<not> endtime_overflows None \<and>
   (\<exists>w'. stop_service host None crashed = Some (Inr 3, w') \<and> child w' = Dead 3
           \<and> (\<exists>w''. stop_service host None w' = Some (Inr 3, w'') \<and> child w'' = Dead 3))
   \<and> stop_service host None crashed =
       Some (Inr 3,
             \<lparr>child = Dead 3, returncode = Some 3, clock_reads = 0, checks = 1, pings = 0,
                trace = [Terminate, Wait None]\<rparr>)"
proof -
  have h1: "consistent crashed"
    by (simp add: consistent_def crashed_def fresh_def)
  have h2: "exit_status_now host crashed = Some 3"
    by (simp add: exit_status_now_def crashed_def fresh_def)
  have h3: "\<not> endtime_overflows None"
    by simp
  have run: "stop_service host None crashed =
       Some (Inr 3,
             \<lparr>child = Dead 3, returncode = Some 3, clock_reads = 0, checks = 1, pings = 0,
                trace = [Terminate, Wait None]\<rparr>)"
    by (simp add: stop_service_def terminate_def wait_def os_check_def
        exit_status_now_def log_def host_def crashed_def fresh_def Let_def)
  from stop_service_already_exited [OF h1 h2 h3] h1 h2 h3 run show ?thesis
    by blast
qed

text \<open>
  The claim as stated fails for a stop timeout that no float holds: on a child that has
  exited with status 3, \<open>wait\<close> raises \<^verbatim>\<open>OverflowError\<close> before it looks at the
  return code, and \<open>stop_service\<close> raises it.
\<close>

theorem exited_huge_stop_timeout_counterexample:
  "exit_status_now host crashed = Some 3 \<and>
   stop_service host (Some huge) crashed =
     Some (Inl (OtherError ''OverflowError''),
           \<lparr>child = Dead 3, returncode = Some 3, clock_reads = 0, checks = 1, pings = 0,
              trace = [Terminate, Wait (Some huge)]\<rparr>)"
  by (simp add: stop_service_def wait_overflow [OF huge_overflows] terminate_def
      os_check_def exit_status_now_def log_def host_def crashed_def fresh_def Let_def)

subsection \<open>Waiting for the service\<close>

lemma monotonic_now_eq:
  "monotonic_now env w = (now, w1) \<Longrightarrow>
     now = monotonic env (clock_reads w) \<and> trace w1 = trace w @ [Monotonic]
     \<and> child w1 = child w \<and> returncode w1 = returncode w \<and> pings w1 = pings w
     \<and> checks w1 = checks w \<and> consistent w1 = consistent w
     \<and> exit_status_now env w1 = exit_status_now env w"
  by (auto simp: monotonic_now_def log_def consistent_def exit_status_now_def
      split: option.splits child.splits)

lemma ping_eq:
  "ping env uri w = (r, w') \<Longrightarrow>
     r = ping_reply env (pings w) \<and> trace w' = trace w @ [Ping uri] \<and> child w' = child w
     \<and> returncode w' = returncode w \<and> consistent w' = consistent w \<and> pings w' = Suc (pings w)"
  by (auto simp: ping_def log_def consistent_def split: option.splits)

lemma poll_then_ping_exited:
  assumes "exit_status_now env w = Some c"
  shows "poll_then_ping env uri w = (Raise (ServiceTerminated c), os_check env (log Poll w))"
  using assms by (simp add: poll_then_ping_def poll_eq)

lemma poll_then_ping_running:
  assumes "exit_status_now env w = None"
  shows "poll_then_ping env uri w =
     (case ping env uri (os_check env (log Poll w)) of
        (Pong b, w3) \<Rightarrow> (if b then Break else Next, w3)
      | (PingRaises e, w3) \<Rightarrow> (if is_APIError e then Next else Raise e, w3))"
  using assms by (simp add: poll_then_ping_def poll_eq)

lemma poll_then_ping_facts:
  assumes "poll_then_ping env uri w = (out, w')"
  shows "(\<exists>tr. trace w' = trace w @ tr \<and> list_all readiness_event tr)"
    and "consistent w \<Longrightarrow> consistent w'"
    and "child w \<noteq> Terminating \<Longrightarrow> child w' \<noteq> Terminating"
    and "out = Next \<or> (\<exists>e. out = Raise e \<and> \<not> is_readiness_failure e) \<Longrightarrow>
           returncode w' = None \<and> (child w' = Alive \<or> child w' = Terminating)"
proof -
  show "\<exists>tr. trace w' = trace w @ tr \<and> list_all readiness_event tr"
  proof (cases "exit_status_now env w")
    case (Some c)
    with assms show ?thesis by (auto simp: poll_then_ping_exited)
  next
    case None
    with assms show ?thesis
      by (auto simp: poll_then_ping_running ping_def split: ping_result.splits if_splits)
  qed
  show "consistent w'" if "consistent w"
  proof (cases "exit_status_now env w")
    case (Some c)
    with assms that show ?thesis by (auto simp: poll_then_ping_exited os_check_consistent)
  next
    case None
    have "consistent (os_check env (log Poll w))"
      using that by (simp add: os_check_consistent)
    with None assms show ?thesis
      by (auto simp: poll_then_ping_running split: prod.splits ping_result.splits if_splits
          dest!: ping_eq)
  qed
  show "child w' \<noteq> Terminating" if "child w \<noteq> Terminating"
  proof (cases "exit_status_now env w")
    case (Some c)
    with assms that show ?thesis
      by (auto simp: poll_then_ping_exited os_check_def split: option.splits)
  next
    case None
    have "child (os_check env (log Poll w)) = child w"
      using None by (simp add: os_check_child_live)
    with None assms that show ?thesis
      by (auto simp: poll_then_ping_running split: prod.splits ping_result.splits if_splits
          dest!: ping_eq)
  qed
  show "returncode w' = None \<and> (child w' = Alive \<or> child w' = Terminating)"
    if "out = Next \<or> (\<exists>e. out = Raise e \<and> \<not> is_readiness_failure e)"
  proof (cases "exit_status_now env w")
    case (Some c)
    with assms that show ?thesis by (auto simp: poll_then_ping_exited)
  next
    case None
    have "child (os_check env (log Poll w)) = child w"
      "returncode (os_check env (log Poll w)) = None"
      using None by (simp_all add: os_check_child_live)
    with None assms that exit_status_now_None_live [OF None] show ?thesis
      by (auto simp: poll_then_ping_running split: prod.splits ping_result.splits if_splits
          dest!: ping_eq)
  qed
qed

lemma iteration_cases:
  obtains (skip) "iteration env uri timeout start w = poll_then_ping env uri w"
  | (late) t w1 where "timeout = Some t" "t \<noteq> 0"
      "monotonic_now env w = (monotonic env (clock_reads w), w1)"
      "float_sub_gt (monotonic env (clock_reads w)) start t"
      "iteration env uri timeout start w = (Raise (ServiceTimeout t), w1)"
  | (early) t w1 where "timeout = Some t" "t \<noteq> 0"
      "monotonic_now env w = (monotonic env (clock_reads w), w1)"
      "\<not> float_sub_gt (monotonic env (clock_reads w)) start t"
      "iteration env uri timeout start w = poll_then_ping env uri w1"
proof (cases timeout)
  case None
  then show ?thesis using skip by (simp add: iteration_def)
next
  case (Some t)
  obtain w1 where w1: "monotonic_now env w = (monotonic env (clock_reads w), w1)"
    by (simp add: monotonic_now_def)
  show ?thesis
  proof (cases "t = 0")
    case True
    with Some show ?thesis using skip by (simp add: iteration_def)
  next
    case False
    show ?thesis
    proof (cases "float_sub_gt (monotonic env (clock_reads w)) start t")
      case True
      with Some False w1 show ?thesis using late by (simp add: iteration_def)
    next
      case nl: False
      with Some False w1 show ?thesis using early by (simp add: iteration_def)
    qed
  qed
qed

lemma step_ok_trans: "step_ok w w1 \<Longrightarrow> step_ok w1 w2 \<Longrightarrow> step_ok w w2"
  by (auto simp: step_ok_def)

lemma step_ok_monotonic_now: "monotonic_now env w = (now, w1) \<Longrightarrow> step_ok w w1"
  by (auto simp: step_ok_def dest!: monotonic_now_eq)

lemma sleep_eq: "sleep env d w = (sleep_raises env d, log (Sleep d) w)"
  by (simp add: sleep_def)

lemma step_ok_sleep: "step_ok w (log (Sleep d) w)"
  by (simp add: step_ok_def)

lemma step_ok_poll_then_ping: "poll_then_ping env uri w = (out, w') \<Longrightarrow> step_ok w w'"
  unfolding step_ok_def using poll_then_ping_facts(1-3) by blast

lemma iteration_step_ok:
  assumes "iteration env uri timeout start w = (out, w')"
  shows "step_ok w w'"
proof (cases rule: iteration_cases [of env uri timeout start w])
  case skip
  with assms show ?thesis by (simp add: step_ok_poll_then_ping)
next
  case (late t w1)
  with assms show ?thesis by (auto dest: step_ok_monotonic_now)
next
  case (early t w1)
  from early(3) have "step_ok w w1"
    by (rule step_ok_monotonic_now)
  moreover from assms early(1,5) have "poll_then_ping env uri w1 = (out, w')"
    by simp
  then have "step_ok w1 w'"
    by (rule step_ok_poll_then_ping)
  ultimately show ?thesis by (rule step_ok_trans)
qed

lemma iteration_live:
  assumes "iteration env uri timeout start w = (out, w')"
    and "out = Next \<or> (\<exists>e. out = Raise e \<and> \<not> is_readiness_failure e)"
  shows "returncode w' = None \<and> (child w' = Alive \<or> child w' = Terminating)"
proof (cases rule: iteration_cases [of env uri timeout start w])
  case skip
  with assms show ?thesis using poll_then_ping_facts(4) by metis
next
  case (late t w1)
  with assms show ?thesis by auto
next
  case (early t w1)
  with assms show ?thesis using poll_then_ping_facts(4) by metis
qed

lemma wait_loop_facts:
  assumes "wait_loop env uri timeout check_interval start w = Some y"
  shows "step_ok w (snd y) \<and>
         (\<forall>e. fst y = Inl e \<longrightarrow> \<not> is_readiness_failure e \<longrightarrow>
            returncode (snd y) = None \<and> (child (snd y) = Alive \<or> child (snd y) = Terminating))"
proof (rule wait_loop.raw_induct [where P = "\<lambda>env uri timeout check_interval start w y.
    step_ok w (snd y) \<and>
         (\<forall>e. fst y = Inl e \<longrightarrow> \<not> is_readiness_failure e \<longrightarrow>
            returncode (snd y) = None \<and> (child (snd y) = Alive \<or> child (snd y) = Terminating))",
    OF _ assms], goal_cases)
  case (1 f env uri timeout check_interval start w y)
  obtain out w1 where it: "iteration env uri timeout start w = (out, w1)"
    by (cases "iteration env uri timeout start w")
  have ok: "step_ok w w1" using it by (rule iteration_step_ok)
  show ?case
  proof (cases out)
    case Break
    with it 1(2) ok show ?thesis by auto
  next
    case (Raise e)
    with it 1(2) ok iteration_live [OF it] show ?thesis by auto
  next
    case Next
    let ?w2 = "log (Sleep check_interval) w1"
    have ok2: "step_ok w ?w2"
      using ok step_ok_sleep [of w1 check_interval] by (rule step_ok_trans)
    show ?thesis
    proof (cases "sleep_raises env check_interval")
      case (Some e)
      with it Next 1(2) have "y = (Inl e, ?w2)"
        by (simp add: sleep_eq)
      with ok2 iteration_live [OF it] Next show ?thesis by simp
    next
      case None
      with it Next 1(2) have "f env uri timeout check_interval start ?w2 = Some y"
        by (simp add: sleep_eq)
      from 1(1) [OF this] ok2 show ?thesis
        by (blast intro: step_ok_trans)
    qed
  qed
qed

lemma wait_for_service_facts:
  assumes "wait_for_service env uri timeout check_interval w = Some (r, w')"
  shows "step_ok w w'"
    and "\<And>e. r = Inl e \<Longrightarrow> \<not> is_readiness_failure e \<Longrightarrow> returncode w = None \<Longrightarrow>
           child w = Alive \<or> child w = Terminating \<Longrightarrow>
           returncode w' = None \<and> (child w' = Alive \<or> child w' = Terminating)"
proof -
  obtain start w1 where m: "monotonic_now env w = (start, w1)"
    by (cases "monotonic_now env w")
  note m1 = monotonic_now_eq [OF m]
  show "step_ok w w'"
  proof (cases "client_error env uri")
    case (Some e)
    with assms m have "w' = w1" by (simp add: wait_for_service_def)
    with step_ok_monotonic_now [OF m] show ?thesis by simp
  next
    case None
    with assms m have l: "wait_loop env uri timeout check_interval start w1 = Some (r, w')"
      by (simp add: wait_for_service_def)
    from wait_loop_facts [OF l] step_ok_monotonic_now [OF m] show ?thesis
      by (auto intro: step_ok_trans)
  qed
  show "returncode w' = None \<and> (child w' = Alive \<or> child w' = Terminating)"
    if "r = Inl e" "\<not> is_readiness_failure e" "returncode w = None"
      "child w = Alive \<or> child w = Terminating" for e
  proof (cases "client_error env uri")
    case (Some e')
    with assms m have "w' = w1" by (simp add: wait_for_service_def)
    with m1 that show ?thesis by simp
  next
    case None
    with assms m have l: "wait_loop env uri timeout check_interval start w1 = Some (r, w')"
      by (simp add: wait_for_service_def)
    from wait_loop_facts [OF l] that show ?thesis by simp
  qed
qed

lemma iteration_expired:
  assumes "timeout = Some t" and "t \<noteq> 0"
    and "float_sub_gt (monotonic env (clock_reads w)) start t"
  shows "iteration env uri timeout start w = (Raise (ServiceTimeout t), snd (monotonic_now env w))"
  using assms by (simp add: iteration_def monotonic_now_def)

lemma iteration_not_expired:
  assumes "\<not> deadline_expired env timeout start w"
  shows "\<exists>w1. iteration env uri timeout start w = poll_then_ping env uri w1
           \<and> exit_status_now env w1 = exit_status_now env w \<and> pings w1 = pings w
           \<and> (\<exists>tr. trace w1 = trace w @ tr \<and> list_all readiness_event tr)"
proof (cases rule: iteration_cases [of env uri timeout start w])
  case skip
  then show ?thesis by auto
next
  case (late t w1)
  with assms show ?thesis by (simp add: deadline_expired_def)
next
  case (early t w1)
  from monotonic_now_eq [OF early(3)] early(5) show ?thesis by auto
qed

lemma iteration_zero: "iteration env uri (Some 0) start w = iteration env uri None start w"
  by (simp add: iteration_def)

lemma wait_loop_zero_imp_none:
  assumes "wait_loop env uri (Some 0) check_interval start w = Some y"
  shows "wait_loop env uri None check_interval start w = Some y"
proof -
  have "Some (0::int) = Some 0 \<longrightarrow> wait_loop env uri None check_interval start w = Some y"
  proof (rule wait_loop.raw_induct [where P = "\<lambda>env uri timeout check_interval start w y.
      timeout = Some 0 \<longrightarrow> wait_loop env uri None check_interval start w = Some y",
      OF _ assms], goal_cases)
    case (1 f env uri timeout check_interval start w y)
    show ?case
    proof
      assume z: "timeout = Some 0"
      obtain out w1 where it: "iteration env uri None start w = (out, w1)"
        by (cases "iteration env uri None start w")
      with z have it0: "iteration env uri timeout start w = (out, w1)"
        by (simp add: iteration_zero)
      show "wait_loop env uri None check_interval start w = Some y"
      proof (cases out)
        case Break
        with it it0 1(2) show ?thesis by (subst wait_loop.simps) simp
      next
        case (Raise e)
        with it it0 1(2) show ?thesis by (subst wait_loop.simps) simp
      next
        case Next
        show ?thesis
        proof (cases "sleep_raises env check_interval")
          case (Some e)
          with it it0 Next 1(2) show ?thesis
            by (subst wait_loop.simps) (simp add: sleep_eq)
        next
          case None
          with it0 Next 1(2)
          have "f env uri timeout check_interval start (log (Sleep check_interval) w1) = Some y"
            by (simp add: sleep_eq)
          from 1(1) [OF this] z
          have "wait_loop env uri None check_interval start (log (Sleep check_interval) w1)
                  = Some y"
            by simp
          with it Next None show ?thesis
            by (subst wait_loop.simps) (simp add: sleep_eq)
        qed
      qed
    qed
  qed
  then show ?thesis by simp
qed

lemma wait_loop_none_imp_zero:
  assumes "wait_loop env uri None check_interval start w = Some y"
  shows "wait_loop env uri (Some 0) check_interval start w = Some y"
proof -
  have "(None :: int option) = None \<longrightarrow>
          wait_loop env uri (Some 0) check_interval start w = Some y"
  proof (rule wait_loop.raw_induct [where P = "\<lambda>env uri timeout check_interval start w y.
      timeout = None \<longrightarrow> wait_loop env uri (Some 0) check_interval start w = Some y",
      OF _ assms], goal_cases)
    case (1 f env uri timeout check_interval start w y)
    show ?case
    proof
      assume z: "timeout = None"
      obtain out w1 where it: "iteration env uri (Some 0) start w = (out, w1)"
        by (cases "iteration env uri (Some 0) start w")
      with z have it0: "iteration env uri timeout start w = (out, w1)"
        by (simp add: iteration_zero)
      show "wait_loop env uri (Some 0) check_interval start w = Some y"
      proof (cases out)
        case Break
        with it it0 1(2) show ?thesis by (subst wait_loop.simps) simp
      next
        case (Raise e)
        with it it0 1(2) show ?thesis by (subst wait_loop.simps) simp
      next
        case Next
        show ?thesis
        proof (cases "sleep_raises env check_interval")
          case (Some e)
          with it it0 Next 1(2) show ?thesis
            by (subst wait_loop.simps) (simp add: sleep_eq)
        next
          case None
          with it0 Next 1(2)
          have "f env uri timeout check_interval start (log (Sleep check_interval) w1) = Some y"
            by (simp add: sleep_eq)
          from 1(1) [OF this] z
          have "wait_loop env uri (Some 0) check_interval start (log (Sleep check_interval) w1)
                  = Some y"
            by simp
          with it Next None show ?thesis
            by (subst wait_loop.simps) (simp add: sleep_eq)
        qed
      qed
    qed
  qed
  then show ?thesis by simp
qed

lemma wait_loop_zero:
  "wait_loop env uri (Some 0) check_interval start w = wait_loop env uri None check_interval start w"
proof (cases "wait_loop env uri (Some 0) check_interval start w")
  case None
  show ?thesis
  proof (cases "wait_loop env uri None check_interval start w")
    case n: None
    with None show ?thesis by simp
  next
    case (Some y)
    from wait_loop_none_imp_zero [OF this] None show ?thesis by simp
  qed
next
  case (Some y)
  from wait_loop_zero_imp_none [OF this] Some show ?thesis by simp
qed

text \<open>
  Float subtraction on the readings used below, and on the doubles nearest to \<open>1.1\<close> and
  \<open>0.1\<close>, whose difference rounds to \<open>1.0\<close>.
\<close>

lemma round_to_double_two: "round_to_double 2 = 2"
  by code_simp

lemma float_sub_gt_two: "a - b = 2 \<Longrightarrow> float_sub_gt a b t = (t < 2)"
  by (simp add: float_sub_gt_def round_to_double_two)

lemma round_to_double_one: "round_to_double 1 = 1"
  by code_simp

lemma float_sub_gt_one: "a - b = 1 \<Longrightarrow> float_sub_gt a b t = (t < 1)"
  by (simp add: float_sub_gt_def round_to_double_one)

lemma float_sub_gt_rounds:
  "\<not> float_sub_gt (2476979795053773 / 2251799813685248)
        (3602879701896397 / 36028797018963968) 1"
  by code_simp

text \<open>
  Claim C2, as amended. A call of \<open>wait_for_service\<close> with a timeout other than \<open>0\<close>
  and a URI for which the client is created, whose clock is past the deadline at the first
  check (the float difference of the first two readings exceeds the timeout), fails with
  \<open>ServiceTimeout\<close>: it reads the clock twice and makes no ping. A timeout of \<open>0\<close> is no
  deadline at all: the call behaves as with no timeout.
\<close>

theorem expired_deadline_no_ping:
  "(timeout = Some t \<and> t \<noteq> 0 \<and> client_error env uri = None
      \<and> float_sub_gt (monotonic env (Suc (clock_reads w))) (monotonic env (clock_reads w)) t
    \<longrightarrow> (\<exists>w'. wait_for_service env uri timeout check_interval w
                  = Some (Inl (ServiceTimeout t), w')
            \<and> pings w' = pings w \<and> trace w' = trace w @ [Monotonic, Monotonic]))
   \<and> wait_for_service env uri (Some 0) check_interval w
       = wait_for_service env uri None check_interval w"
proof (intro conjI impI)
  assume a: "timeout = Some t \<and> t \<noteq> 0 \<and> client_error env uri = None
      \<and> float_sub_gt (monotonic env (Suc (clock_reads w))) (monotonic env (clock_reads w)) t"
  let ?w1 = "snd (monotonic_now env w)"
  let ?start = "monotonic env (clock_reads w)"
  have w1: "clock_reads ?w1 = Suc (clock_reads w)" "trace ?w1 = trace w @ [Monotonic]"
    "pings ?w1 = pings w"
    by (simp_all add: monotonic_now_def log_def)
  from a w1 have "timeout = Some t" "t \<noteq> 0"
    "float_sub_gt (monotonic env (clock_reads ?w1)) ?start t"
    by simp_all
  then have "wait_loop env uri timeout check_interval ?start ?w1 =
      Some (Inl (ServiceTimeout t), snd (monotonic_now env ?w1))"
    by (subst wait_loop.simps) (simp add: iteration_expired)
  moreover have "wait_for_service env uri timeout check_interval w =
      wait_loop env uri timeout check_interval ?start ?w1"
    using a by (simp add: wait_for_service_def monotonic_now_def)
  moreover have "pings (snd (monotonic_now env ?w1)) = pings w"
    "trace (snd (monotonic_now env ?w1)) = trace w @ [Monotonic, Monotonic]"
    by (simp_all add: monotonic_now_def log_def)
  ultimately show "\<exists>w'. wait_for_service env uri timeout check_interval w
                  = Some (Inl (ServiceTimeout t), w')
            \<and> pings w' = pings w \<and> trace w' = trace w @ [Monotonic, Monotonic]"
    by simp
next
  show "wait_for_service env uri (Some 0) check_interval w
       = wait_for_service env uri None check_interval w"
    by (simp add: wait_for_service_def wait_loop_zero split: prod.splits option.splits)
qed

theorem expired_deadline_no_ping_witness:
  "(1::int) \<noteq> 0 \<and> client_error slow_host podman_sock = None
   \<and> float_sub_gt (monotonic slow_host (Suc (clock_reads fresh)))
        (monotonic slow_host (clock_reads fresh)) 1
   \<and> (\<exists>w'. wait_for_service slow_host podman_sock (Some 1) (1 / 10) fresh
              = Some (Inl (ServiceTimeout 1), w')
         \<and> pings w' = pings fresh \<and> trace w' = trace fresh @ [Monotonic, Monotonic])
   \<and> wait_for_service slow_host podman_sock (Some 0) (1 / 10) fresh
       = wait_for_service slow_host podman_sock None (1 / 10) fresh"
proof -
  have h: "float_sub_gt (monotonic slow_host (Suc (clock_reads fresh)))
        (monotonic slow_host (clock_reads fresh)) 1"
    by (simp add: slow_host_def host_def fresh_def float_sub_gt_two)
  have c: "client_error slow_host podman_sock = None"
    by (simp add: slow_host_def host_def)
  from expired_deadline_no_ping [where timeout = "Some 1" and t = 1 and env = slow_host
      and w = fresh and uri = podman_sock and check_interval = "1 / 10"] h c
  show ?thesis by simp
qed

text \<open>
  The claim as stated fails for a timeout of \<open>0\<close>: line 159 tests the truth value of
  \<open>timeout\<close>, so the wait polls the child, pings once and returns when the ping
  succeeds.
\<close>

theorem zero_timeout_counterexample:
  "wait_for_service host podman_sock (Some 0) (1 / 10) fresh =
     Some (Inr (), \<lparr>child = Alive, returncode = None, clock_reads = 1, checks = 1, pings = 1,
                     trace = [Monotonic, Poll, Ping podman_sock]\<rparr>)"
  by (simp add: wait_for_service_def monotonic_now_def log_def host_def fresh_def
      wait_loop.simps [of _ _ "Some 0"] iteration_def poll_then_ping_def poll_def os_check_def
      exit_status_now_def ping_def)

text \<open>
  Claim C3, as amended. In every pass of the readiness loop that finds the process exited
  with status \<open>c\<close>, no ping is made and the wait does not succeed: when the deadline
  check of that pass does not fire the wait fails with \<open>ServiceTerminated c\<close>, and when
  it fires the wait fails with \<open>ServiceTimeout\<close>.
\<close>

theorem exit_check_precedes_ping:
  assumes "exit_status_now env w = Some c"
  shows "if deadline_expired env timeout start w
         then \<exists>t w'. timeout = Some t
                \<and> wait_loop env uri timeout check_interval start w = Some (Inl (ServiceTimeout t), w')
                \<and> pings w' = pings w
         else \<exists>w'. wait_loop env uri timeout check_interval start w
                      = Some (Inl (ServiceTerminated c), w')
                \<and> pings w' = pings w"
proof (cases "deadline_expired env timeout start w")
  case True
  then obtain t where t: "timeout = Some t" "t \<noteq> 0"
    "float_sub_gt (monotonic env (clock_reads w)) start t"
    by (auto simp: deadline_expired_def split: option.splits)
  have "wait_loop env uri timeout check_interval start w =
          Some (Inl (ServiceTimeout t), snd (monotonic_now env w))"
    by (subst wait_loop.simps) (simp add: iteration_expired [OF t])
  moreover have "pings (snd (monotonic_now env w)) = pings w"
    by (simp add: monotonic_now_def log_def)
  ultimately show ?thesis using True t(1) by simp
next
  case False
  from iteration_not_expired [OF False, of uri]
  obtain w1 where w1: "iteration env uri timeout start w = poll_then_ping env uri w1"
    "exit_status_now env w1 = exit_status_now env w" "pings w1 = pings w"
    by blast
  from w1(2) assms have "exit_status_now env w1 = Some c" by simp
  then have "poll_then_ping env uri w1 = (Raise (ServiceTerminated c), os_check env (log Poll w1))"
    by (rule poll_then_ping_exited)
  with w1(1) have "wait_loop env uri timeout check_interval start w =
      Some (Inl (ServiceTerminated c), os_check env (log Poll w1))"
    by (subst wait_loop.simps) simp
  moreover have "pings (os_check env (log Poll w1)) = pings w"
    using w1(3) by simp
  ultimately show ?thesis using False by simp
qed

theorem exit_check_precedes_ping_witness:
  "exit_status_now host crashed = Some 3 \<and> \<not> deadline_expired host None 0 crashed \<and>
   (\<exists>w'. wait_loop host podman_sock None (1 / 10) 0 crashed = Some (Inl (ServiceTerminated 3), w')
      \<and> pings w' = pings crashed)
   \<and> \<not> deadline_expired host (Some 1) (- 1) crashed \<and>
   (\<exists>w'. wait_loop host podman_sock (Some 1) (1 / 10) (- 1) crashed
            = Some (Inl (ServiceTerminated 3), w')
      \<and> pings w' = pings crashed)
   \<and> deadline_expired host (Some 1) (- 2) crashed \<and>
   (\<exists>w'. wait_loop host podman_sock (Some 1) (1 / 10) (- 2) crashed
            = Some (Inl (ServiceTimeout 1), w')
      \<and> pings w' = pings crashed)"
proof -
  have h: "exit_status_now host crashed = Some 3"
    by (simp add: exit_status_now_def crashed_def fresh_def)
  have d: "\<not> deadline_expired host None 0 crashed"
    by (simp add: deadline_expired_def)
  have d1: "\<not> deadline_expired host (Some 1) (- 1) crashed"
    by (simp add: deadline_expired_def host_def crashed_def fresh_def float_sub_gt_one)
  have d2: "deadline_expired host (Some 1) (- 2) crashed"
    by (simp add: deadline_expired_def host_def crashed_def fresh_def float_sub_gt_two)
  from exit_check_precedes_ping [OF h, of None 0 podman_sock "1 / 10"]
    exit_check_precedes_ping [OF h, of "Some 1" "- 1" podman_sock "1 / 10"]
    exit_check_precedes_ping [OF h, of "Some 1" "- 2" podman_sock "1 / 10"]
    h d d1 d2
  show ?thesis by simp
qed

text \<open>
  The claim as stated fails when the deadline has passed as well: the process has exited
  with status 3 before any ping, and the wait fails with \<open>ServiceTimeout\<close>.
\<close>

theorem exited_process_timeout_counterexample:
  "child crashed = Dead 3 \<and>
   map_option fst (wait_for_service slow_host podman_sock (Some 1) (1 / 10) crashed)
     = Some (Inl (ServiceTimeout 1))"
  by (simp add: wait_for_service_def monotonic_now_def log_def slow_host_def host_def
      crashed_def fresh_def wait_loop.simps [of _ _ "Some 1"] iteration_def float_sub_gt_two)

text \<open>
  Claim C4, as amended. In every pass of the readiness loop in which a timeout other than
  \<open>0\<close> is set and the elapsed time, the float difference that line 159 computes, exceeds
  it, the wait fails with \<open>ServiceTimeout\<close>. Nothing is assumed about the child: the
  deadline is checked before the exit of the process is looked at, so no status check and
  no ping is made in that pass.
\<close>

theorem deadline_preempts_exit:
  assumes "timeout = Some t" and "t \<noteq> 0"
    and "float_sub_gt (monotonic env (clock_reads w)) start t"
  shows "\<exists>w'. wait_loop env uri timeout check_interval start w = Some (Inl (ServiceTimeout t), w')
           \<and> trace w' = trace w @ [Monotonic] \<and> child w' = child w \<and> checks w' = checks w
           \<and> pings w' = pings w"
proof -
  have "wait_loop env uri timeout check_interval start w =
          Some (Inl (ServiceTimeout t), snd (monotonic_now env w))"
    by (subst wait_loop.simps) (simp add: iteration_expired [OF assms])
  then show ?thesis
    by (simp add: monotonic_now_def log_def)
qed

theorem deadline_preempts_exit_witness:
  "(1::int) \<noteq> 0 \<and> float_sub_gt (monotonic host (clock_reads crashed)) (- 2) 1 \<and>
   (\<exists>w'. wait_loop host podman_sock (Some 1) (1 / 10) (- 2) crashed
            = Some (Inl (ServiceTimeout 1), w')
      \<and> trace w' = trace crashed @ [Monotonic] \<and> child w' = Dead 3 \<and> checks w' = checks crashed
      \<and> pings w' = pings crashed)
   \<and> \<not> float_sub_gt (monotonic host (clock_reads crashed)) (- 1) 1"
proof -
  have b: "\<not> float_sub_gt (monotonic host (clock_reads crashed)) (- 1) 1"
    by (simp add: host_def crashed_def fresh_def float_sub_gt_one)
  have h: "float_sub_gt (monotonic host (clock_reads crashed)) (- 2) 1"
    by (simp add: host_def crashed_def fresh_def float_sub_gt_two)
  have c: "child crashed = Dead 3"
    by (simp add: crashed_def)
  from deadline_preempts_exit [where timeout = "Some 1" and t = 1 and env = host
      and w = crashed and start = "- 2" and uri = podman_sock
      and check_interval = "1 / 10"] h c b
  show ?thesis by simp
qed

text \<open>
  The claim as stated fails for a timeout of \<open>0\<close>: the elapsed time exceeds it and the
  process has exited, and the wait fails with \<open>ServiceTerminated\<close>.
\<close>

theorem zero_timeout_exit_counterexample:
  "child crashed = Dead 3
   \<and> float_sub_gt (monotonic slow_host (Suc (clock_reads crashed)))
        (monotonic slow_host (clock_reads crashed)) 0
   \<and> map_option fst (wait_for_service slow_host podman_sock (Some 0) (1 / 10) crashed)
       = Some (Inl (ServiceTerminated 3))"
  by (simp add: wait_for_service_def monotonic_now_def log_def slow_host_def host_def
      crashed_def fresh_def wait_loop.simps [of _ _ "Some 0"] iteration_def poll_then_ping_def
      poll_def os_check_def exit_status_now_def float_sub_gt_two)

text \<open>
  Claim C5, as amended. In a pass of the readiness loop that reaches the ping (the
  deadline check does not fire and the child is running), a ping that raises an
  \<open>APIError\<close> is swallowed: the wait goes on with the sleep of line 171 in the world the
  ping left, and with the next pass when that sleep returns; when the sleep raises, its
  exception ends the wait. A ping that raises anything else ends the wait at once with
  that exception, in the world the ping left.
\<close>

theorem only_api_error_swallowed:
  assumes "\<not> deadline_expired env timeout start w"
    and "exit_status_now env w = None"
    and "ping_reply env (pings w) = PingRaises e"
  shows "\<exists>w3. pings w3 = Suc (pings w) \<and> (\<exists>tr. trace w3 = trace w @ tr @ [Ping uri])
           \<and> (\<forall>m. e = APIError m \<longrightarrow>
                 wait_loop env uri timeout check_interval start w =
                   (case sleep env check_interval w3 of
                      (Some e', w4) \<Rightarrow> Some (Inl e', w4)
                    | (None, w4) \<Rightarrow> wait_loop env uri timeout check_interval start w4))
           \<and> (\<forall>m. e = APIError m \<longrightarrow> sleep_raises env check_interval = None \<longrightarrow>
                 wait_loop env uri timeout check_interval start w =
                   wait_loop env uri timeout check_interval start
                     (log (Sleep check_interval) w3))
           \<and> ((\<forall>m. e \<noteq> APIError m) \<longrightarrow>
                 wait_loop env uri timeout check_interval start w = Some (Inl e, w3))"
proof -
  from iteration_not_expired [OF assms(1), of uri]
  obtain w1 tr where w1: "iteration env uri timeout start w = poll_then_ping env uri w1"
    "exit_status_now env w1 = exit_status_now env w" "pings w1 = pings w"
    "trace w1 = trace w @ tr"
    by blast
  let ?w2 = "os_check env (log Poll w1)"
  obtain w3 where p: "ping env uri ?w2 = (PingRaises e, w3)"
    using assms(3) w1(3) by (simp add: ping_def)
  from w1(2) assms(2) have "exit_status_now env w1 = None" by simp
  then have body: "poll_then_ping env uri w1 = (if is_APIError e then Next else Raise e, w3)"
    using p by (simp add: poll_then_ping_running)
  have api: "wait_loop env uri timeout check_interval start w =
                   (case sleep env check_interval w3 of
                      (Some e', w4) \<Rightarrow> Some (Inl e', w4)
                    | (None, w4) \<Rightarrow> wait_loop env uri timeout check_interval start w4)"
    if "e = APIError m" for m
    using w1(1) body that by (subst wait_loop.simps) simp
  have other: "wait_loop env uri timeout check_interval start w = Some (Inl e, w3)"
    if "\<forall>m. e \<noteq> APIError m"
  proof -
    from that have "\<not> is_APIError e" by (cases e) simp_all
    with w1(1) body show ?thesis by (subst wait_loop.simps) simp
  qed
  from ping_eq [OF p] w1(3,4)
  have "pings w3 = Suc (pings w)" "trace w3 = trace w @ (tr @ [Poll]) @ [Ping uri]"
    by simp_all
  with api other show ?thesis
    by (auto simp: sleep_eq)
qed

theorem only_api_error_swallowed_witness:
  "\<not> deadline_expired warming_up None 0 fresh
   \<and> exit_status_now warming_up fresh = None
   \<and> ping_reply warming_up (pings fresh) = PingRaises (APIError ''unreachable'')
   \<and> sleep_raises warming_up (1 / 10) = None
   \<and> (\<exists>w3. pings w3 = Suc (pings fresh)
         \<and> wait_loop warming_up podman_sock None (1 / 10) 0 fresh =
             wait_loop warming_up podman_sock None (1 / 10) 0 (log (Sleep (1 / 10)) w3))
   \<and> wait_loop warming_up podman_sock None (1 / 10) 0 fresh =
       Some (Inr (), \<lparr>child = Alive, returncode = None, clock_reads = 0, checks = 2, pings = 2,
                       trace = [Poll, Ping podman_sock, Sleep (1 / 10), Poll,
                                Ping podman_sock]\<rparr>)
   \<and> \<not> deadline_expired broken_endpoint None 0 fresh
   \<and> exit_status_now broken_endpoint fresh = None
   \<and> ping_reply broken_endpoint (pings fresh) = PingRaises (OtherError ''ValueError'')
   \<and> (\<exists>w3. pings w3 = Suc (pings fresh)
         \<and> wait_loop broken_endpoint podman_sock None (1 / 10) 0 fresh
             = Some (Inl (OtherError ''ValueError''), w3))"
proof -
  have a1: "\<not> deadline_expired warming_up None 0 fresh"
    by (simp add: deadline_expired_def)
  have a2: "exit_status_now warming_up fresh = None"
    by (simp add: exit_status_now_def warming_up_def host_def fresh_def)
  have a3: "ping_reply warming_up (pings fresh) = PingRaises (APIError ''unreachable'')"
    by (simp add: warming_up_def host_def fresh_def)
  have a4: "sleep_raises warming_up (1 / 10) = None"
    by (simp add: sleep_raises_def warming_up_def host_def)
  have run: "wait_loop warming_up podman_sock None (1 / 10) 0 fresh =
       Some (Inr (), \<lparr>child = Alive, returncode = None, clock_reads = 0, checks = 2, pings = 2,
                       trace = [Poll, Ping podman_sock, Sleep (1 / 10), Poll,
                                Ping podman_sock]\<rparr>)"
    by (simp add: wait_loop.simps [of _ _ None] iteration_def poll_then_ping_def poll_def
        os_check_def exit_status_now_def ping_def sleep_def sleep_raises_def log_def
        warming_up_def host_def
        fresh_def)
  have h1: "\<not> deadline_expired broken_endpoint None 0 fresh"
    by (simp add: deadline_expired_def)
  have h2: "exit_status_now broken_endpoint fresh = None"
    by (simp add: exit_status_now_def broken_endpoint_def host_def fresh_def)
  have h3: "ping_reply broken_endpoint (pings fresh) = PingRaises (OtherError ''ValueError'')"
    by (simp add: broken_endpoint_def host_def)
  from only_api_error_swallowed [OF a1 a2 a3, of podman_sock "1 / 10"] a4
  have swallowed: "\<exists>w3. pings w3 = Suc (pings fresh)
         \<and> wait_loop warming_up podman_sock None (1 / 10) 0 fresh =
             wait_loop warming_up podman_sock None (1 / 10) 0 (log (Sleep (1 / 10)) w3)"
    by auto
  from only_api_error_swallowed [OF h1 h2 h3, of podman_sock "1 / 10"]
  have raised: "\<exists>w3. pings w3 = Suc (pings fresh)
         \<and> wait_loop broken_endpoint podman_sock None (1 / 10) 0 fresh
             = Some (Inl (OtherError ''ValueError''), w3)"
    by auto
  from a1 a2 a3 a4 swallowed run h1 h2 h3 raised show ?thesis
    by blast
qed

text \<open>
  The claim as stated fails for a negative check interval: the first ping raises an
  \<open>APIError\<close>, which is swallowed, but the loop does not go on polling, because
  \<^verbatim>\<open>time.sleep\<close> raises \<^verbatim>\<open>ValueError\<close> and ends the wait.
\<close>

theorem negative_interval_counterexample:
  "ping_reply warming_up 0 = PingRaises (APIError ''unreachable'') \<and>
   wait_for_service warming_up podman_sock None (- 1) fresh =
     Some (Inl (OtherError ''ValueError''),
           \<lparr>child = Alive, returncode = None, clock_reads = 1, checks = 1, pings = 1,
              trace = [Monotonic, Poll, Ping podman_sock, Sleep (- 1)]\<rparr>)"
  by (simp add: wait_for_service_def monotonic_now_def wait_loop.simps [of _ _ None]
      iteration_def poll_then_ping_def poll_def os_check_def exit_status_now_def ping_def
      sleep_def sleep_raises_def log_def warming_up_def host_def fresh_def)

subsection \<open>The managed session\<close>

lemma count_list_readiness:
  "list_all readiness_event tr \<Longrightarrow> count_list tr Terminate = 0 \<and> count_list tr Kill = 0"
  by (induction tr) auto

text \<open>
  Claim C6, as amended. When the service has been started and the readiness wait fails with
  \<open>ServiceTimeout\<close> or \<open>ServiceTerminated\<close>, the session is exactly one call of
  \<open>stop_service\<close> in the world the wait left, and the block is not run: one more
  \<open>Terminate\<close> stands in the trace than before the session. When that call returns an
  exit code the session raises the same failure, which is the case whenever the stop
  timeout is one that a float holds, the child has exited or may be signalled, and either
  a stop timeout is given or the child has exited. When the call raises, its exception is the one the session raises; when it
  never returns, neither does the session.
\<close>

theorem readiness_failure_cleanup:
  assumes "start_service env (Some uri) (Some 0) cors w = (Inr (), w1)"
    and "wait_for_service env uri ping_timeout (1 / 10) w1 = Some (Inl e, w2)"
    and "e = ServiceTimeout t \<or> e = ServiceTerminated c"
  shows "service env uri cors ping_timeout stop_timeout body w =
           (case stop_service env stop_timeout w2 of
              None \<Rightarrow> None
            | Some (Inl e', w3) \<Rightarrow> Some (Inl e', w3)
            | Some (Inr ret, w3) \<Rightarrow> Some (Inl e, w3))
         \<and> (\<forall>r w3. stop_service env stop_timeout w2 = Some (r, w3) \<longrightarrow>
               count_list (trace w3) Terminate = Suc (count_list (trace w) Terminate))
         \<and> (\<not> endtime_overflows stop_timeout
              \<and> (signal_error env = None \<or> exit_status_now env w2 \<noteq> None)
              \<and> (stop_timeout \<noteq> None \<or> exit_status_now env w2 \<noteq> None) \<longrightarrow>
               (\<exists>w3. service env uri cors ping_timeout stop_timeout body w
                       = Some (Inl e, w3)))"
proof -
  note s = start_service_started [OF assms(1)]
  from wait_for_service_facts(1) [OF assms(2)] s
  obtain tr where tr: "trace w2 = trace w1 @ tr" "list_all readiness_event tr"
    and c2: "consistent w2"
    by (auto simp: step_ok_def)
  have cnt: "count_list (trace w2) Terminate = count_list (trace w) Terminate"
    using tr s count_list_readiness [OF tr(2)] by simp
  from assms(3) have rf: "is_readiness_failure e"
    by auto
  have enter: "service_enter env uri cors ping_timeout stop_timeout w =
           (case stop_service env stop_timeout w2 of
              None \<Rightarrow> None
            | Some (Inl e', w3) \<Rightarrow> Some (Inl e', w3)
            | Some (Inr ret, w3) \<Rightarrow> Some (Inl e, w3))"
    using assms(1,2) rf by (simp add: service_enter_def)
  then have session: "service env uri cors ping_timeout stop_timeout body w =
           (case stop_service env stop_timeout w2 of
              None \<Rightarrow> None
            | Some (Inl e', w3) \<Rightarrow> Some (Inl e', w3)
            | Some (Inr ret, w3) \<Rightarrow> Some (Inl e, w3))"
    by (auto simp: service_def split: option.splits sum.splits)
  moreover have "\<forall>r w3. stop_service env stop_timeout w2 = Some (r, w3) \<longrightarrow>
               count_list (trace w3) Terminate = Suc (count_list (trace w) Terminate)"
    using stop_service_returns cnt by auto
  moreover have "\<exists>w3. service env uri cors ping_timeout stop_timeout body w
                       = Some (Inl e, w3)"
    if ok: "\<not> endtime_overflows stop_timeout"
      and sig: "signal_error env = None \<or> exit_status_now env w2 \<noteq> None"
      and fin: "stop_timeout \<noteq> None \<or> exit_status_now env w2 \<noteq> None"
  proof -
    from stop_service_total [OF c2 fin]
    obtain r w3 where st: "stop_service env stop_timeout w2 = Some (r, w3)"
      by blast
    from stop_service_exit_code [OF c2 st ok sig] obtain code where "r = Inr code"
      by blast
    with st session show ?thesis by simp
  qed
  ultimately show ?thesis by blast
qed

theorem readiness_failure_cleanup_witness:
  "start_service slow_host (Some podman_sock) (Some 0) None fresh = (Inr (), started)
   \<and> wait_for_service slow_host podman_sock (Some 1) (1 / 10) started
       = Some (Inl (ServiceTimeout 1),
               started\<lparr>clock_reads := 2, trace := trace started @ [Monotonic, Monotonic]\<rparr>)
   \<and> service slow_host podman_sock None (Some 1) (Some 5) failing_block fresh
       = Some (Inl (ServiceTimeout 1),
               \<lparr>child = Dead (- 9), returncode = Some (- 9), clock_reads = 2, checks = 2,
                  pings = 0,
                  trace = [Spawn [''system'', ''service''], Monotonic, Monotonic, Terminate,
                           Wait (Some 5), Kill, Wait None]\<rparr>)
   \<and> count_list [Spawn [''system'', ''service''], Monotonic, Monotonic, Terminate,
                   Wait (Some 5), Kill, Wait None] Terminate = Suc (count_list (trace fresh) Terminate)
   \<and> start_service short_lived (Some podman_sock) (Some 0) None fresh = (Inr (), started)
   \<and> wait_for_service short_lived podman_sock None (1 / 10) started
       = Some (Inl (ServiceTerminated 125),
               started\<lparr>child := Dead 125, returncode := Some 125, clock_reads := 1,
                        checks := 1, trace := trace started @ [Monotonic, Poll]\<rparr>)
   \<and> service short_lived podman_sock None None None failing_block fresh
       = Some (Inl (ServiceTerminated 125),
               \<lparr>child = Dead 125, returncode = Some 125, clock_reads = 1, checks = 1,
                  pings = 0,
                  trace = [Spawn [''system'', ''service''], Monotonic, Poll, Terminate,
                           Wait None]\<rparr>)
   \<and> count_list [Spawn [''system'', ''service''], Monotonic, Poll, Terminate, Wait None]
         Terminate = Suc (count_list (trace fresh) Terminate)"
proof -
  let ?w2 = "started\<lparr>clock_reads := 2, trace := trace started @ [Monotonic, Monotonic]\<rparr>"
  let ?w3 = "\<lparr>child = Dead (- 9), returncode = Some (- 9), clock_reads = 2, checks = 2,
                  pings = 0,
                  trace = [Spawn [''system'', ''service''], Monotonic, Monotonic, Terminate,
                           Wait (Some 5), Kill, Wait None]\<rparr>"
  have h1: "start_service slow_host (Some podman_sock) (Some 0) None fresh = (Inr (), started)"
    by (simp add: start_service_def run_raw_def log_def slow_host_def host_def started_def
        fresh_def)
  have h2: "wait_for_service slow_host podman_sock (Some 1) (1 / 10) started
              = Some (Inl (ServiceTimeout 1), ?w2)"
    by (simp add: wait_for_service_def monotonic_now_def log_def slow_host_def host_def
        started_def fresh_def wait_loop.simps [of _ _ "Some 1"] iteration_def float_sub_gt_two)
  have stop: "stop_service slow_host (Some 5) ?w2 = Some (Inr (- 9), ?w3)"
    by (simp add: stop_service_def terminate_def kill_def wait_def os_check_def
        exit_status_now_def log_def slow_host_def host_def started_def fresh_def Let_def
        five_in_range)
  let ?v2 = "started\<lparr>child := Dead 125, returncode := Some 125, clock_reads := 1,
                        checks := 1, trace := trace started @ [Monotonic, Poll]\<rparr>"
  let ?v3 = "\<lparr>child = Dead 125, returncode = Some 125, clock_reads = 1, checks = 1,
                  pings = 0,
                  trace = [Spawn [''system'', ''service''], Monotonic, Poll, Terminate,
                           Wait None]\<rparr>"
  have k1: "start_service short_lived (Some podman_sock) (Some 0) None fresh
              = (Inr (), started)"
    by (simp add: start_service_def run_raw_def log_def short_lived_def host_def started_def
        fresh_def)
  have k2: "wait_for_service short_lived podman_sock None (1 / 10) started
              = Some (Inl (ServiceTerminated 125), ?v2)"
    by (simp add: wait_for_service_def monotonic_now_def log_def short_lived_def host_def
        started_def fresh_def wait_loop.simps [of _ _ None] iteration_def poll_then_ping_def
        poll_def os_check_def exit_status_now_def)
  have kstop: "stop_service short_lived None ?v2 = Some (Inr 125, ?v3)"
    by (simp add: stop_service_def terminate_def wait_def os_check_def
        exit_status_now_def log_def short_lived_def host_def started_def fresh_def Let_def)
  have h3: "ServiceTimeout 1 = ServiceTimeout 1 \<or> ServiceTimeout 1 = ServiceTerminated 0"
    by simp
  have k3: "ServiceTerminated 125 = ServiceTimeout 0
              \<or> ServiceTerminated 125 = ServiceTerminated 125"
    by simp
  from readiness_failure_cleanup [OF h1 h2 h3, where stop_timeout = "Some 5"
      and body = failing_block] stop
  have a: "service slow_host podman_sock None (Some 1) (Some 5) failing_block fresh
             = Some (Inl (ServiceTimeout 1), ?w3)
           \<and> count_list (trace ?w3) Terminate = Suc (count_list (trace fresh) Terminate)"
    by simp
  from readiness_failure_cleanup [OF k1 k2 k3, where stop_timeout = None
      and body = failing_block] kstop
  have b: "service short_lived podman_sock None None None failing_block fresh
             = Some (Inl (ServiceTerminated 125), ?v3)
           \<and> count_list (trace ?v3) Terminate = Suc (count_list (trace fresh) Terminate)"
    by simp
  from a b h1 h2 k1 k2 show ?thesis by simp
qed

text \<open>
  The claim as stated fails when \<open>stop_service\<close> raises: the readiness wait fails with
  \<open>ServiceTimeout\<close>, line 202 calls \<open>stop_service\<close> with a stop timeout that no float
  holds, and the \<^verbatim>\<open>OverflowError\<close> of \<open>wait\<close> leaves the session in place of the
  readiness failure.
\<close>

theorem replaced_failure_counterexample:
  "wait_for_service slow_host podman_sock (Some 1) (1 / 10) started
     = Some (Inl (ServiceTimeout 1),
             started\<lparr>clock_reads := 2, trace := trace started @ [Monotonic, Monotonic]\<rparr>)
   \<and> service slow_host podman_sock None (Some 1) (Some huge) failing_block fresh
       = Some (Inl (OtherError ''OverflowError''),
               \<lparr>child = Terminating, returncode = None, clock_reads = 2, checks = 1,
                  pings = 0,
                  trace = [Spawn [''system'', ''service''], Monotonic, Monotonic, Terminate,
                           Wait (Some huge)]\<rparr>)"
proof -
  let ?w2 = "started\<lparr>clock_reads := 2, trace := trace started @ [Monotonic, Monotonic]\<rparr>"
  have h1: "start_service slow_host (Some podman_sock) (Some 0) None fresh = (Inr (), started)"
    by (simp add: start_service_def run_raw_def log_def slow_host_def host_def started_def
        fresh_def)
  have h2: "wait_for_service slow_host podman_sock (Some 1) (1 / 10) started
              = Some (Inl (ServiceTimeout 1), ?w2)"
    by (simp add: wait_for_service_def monotonic_now_def log_def slow_host_def host_def
        started_def fresh_def wait_loop.simps [of _ _ "Some 1"] iteration_def float_sub_gt_two)
  have stop: "stop_service slow_host (Some huge) ?w2 =
      Some (Inl (OtherError ''OverflowError''),
            \<lparr>child = Terminating, returncode = None, clock_reads = 2, checks = 1,
               pings = 0,
               trace = [Spawn [''system'', ''service''], Monotonic, Monotonic, Terminate,
                        Wait (Some huge)]\<rparr>)"
    by (simp add: stop_service_def wait_overflow [OF huge_overflows] terminate_def os_check_def
        exit_status_now_def log_def slow_host_def host_def started_def fresh_def Let_def)
  from h1 h2 stop show ?thesis
    by (simp add: service_def service_enter_def)
qed

text \<open>
  Claim C10. When the service has been started and the readiness wait fails with an
  error other than \<open>ServiceTimeout\<close> and \<open>ServiceTerminated\<close>, the session raises that
  error in the world the wait left: \<open>stop_service\<close> is not called (no \<open>Terminate\<close> and no
  \<open>Kill\<close> is added to the trace) and the child is still running.
\<close>

theorem fatal_readiness_error_skips_stop:
  assumes "start_service env (Some uri) (Some 0) cors w = (Inr (), w1)"
    and "wait_for_service env uri ping_timeout (1 / 10) w1 = Some (Inl e, w2)"
    and "\<not> is_readiness_failure e"
  shows "service env uri cors ping_timeout stop_timeout body w = Some (Inl e, w2)
         \<and> child w2 = Alive \<and> returncode w2 = None
         \<and> count_list (trace w2) Terminate = count_list (trace w) Terminate
         \<and> count_list (trace w2) Kill = count_list (trace w) Kill"
proof -
  note s = start_service_started [OF assms(1)]
  from wait_for_service_facts(1) [OF assms(2)] s
  obtain tr where tr: "trace w2 = trace w1 @ tr" "list_all readiness_event tr"
    and nt: "child w2 \<noteq> Terminating"
    by (auto simp: step_ok_def)
  from s have "returncode w1 = None" "child w1 = Alive \<or> child w1 = Terminating"
    by simp_all
  from wait_for_service_facts(2) [OF assms(2) refl assms(3) this] nt
  have alive: "child w2 = Alive" "returncode w2 = None"
    by auto
  have "service_enter env uri cors ping_timeout stop_timeout w = Some (Inl e, w2)"
    using assms by (simp add: service_enter_def)
  then have "service env uri cors ping_timeout stop_timeout body w = Some (Inl e, w2)"
    by (simp add: service_def)
  with alive tr s count_list_readiness [OF tr(2)] show ?thesis by simp
qed

theorem fatal_readiness_error_skips_stop_witness:
  "start_service broken_endpoint (Some podman_sock) (Some 0) None fresh = (Inr (), started)
   \<and> wait_for_service broken_endpoint podman_sock None (1 / 10) started
       = Some (Inl (OtherError ''ValueError''),
               started\<lparr>clock_reads := 1, checks := 1, pings := 1,
                        trace := trace started @ [Monotonic, Poll, Ping podman_sock]\<rparr>)
   \<and> \<not> is_readiness_failure (OtherError ''ValueError'')
   \<and> service broken_endpoint podman_sock None None None failing_block fresh
       = Some (Inl (OtherError ''ValueError''),
               started\<lparr>clock_reads := 1, checks := 1, pings := 1,
                        trace := trace started @ [Monotonic, Poll, Ping podman_sock]\<rparr>)"
proof -
  let ?w2 = "started\<lparr>clock_reads := 1, checks := 1, pings := 1,
                        trace := trace started @ [Monotonic, Poll, Ping podman_sock]\<rparr>"
  have h1: "start_service broken_endpoint (Some podman_sock) (Some 0) None fresh
              = (Inr (), started)"
    by (simp add: start_service_def run_raw_def log_def broken_endpoint_def host_def
        started_def fresh_def)
  have h2: "wait_for_service broken_endpoint podman_sock None (1 / 10) started
              = Some (Inl (OtherError ''ValueError''), ?w2)"
    by (simp add: wait_for_service_def monotonic_now_def log_def broken_endpoint_def host_def
        started_def fresh_def wait_loop.simps [of _ _ None] iteration_def poll_then_ping_def
        poll_def os_check_def exit_status_now_def ping_def)
  have h3: "\<not> is_readiness_failure (OtherError ''ValueError'')"
    by simp
  from fatal_readiness_error_skips_stop [OF h1 h2 h3, of None failing_block] h1 h2
  show ?thesis by simp
qed

text \<open>
  Claim C1. The claim asks that \<open>stop_service\<close> runs when the block of the session
  raises. The code does not do so: the session below becomes ready at the first ping, its
  block raises \<^verbatim>\<open>RuntimeError\<close>, and the session ends with that error while the child
  is alive and the trace holds no \<open>Terminate\<close>.
\<close>

theorem block_exception_skips_stop:
  "service host podman_sock None None None failing_block fresh =
     Some (Inl (OtherError ''RuntimeError''),
           \<lparr>child = Alive, returncode = None, clock_reads = 1, checks = 1, pings = 1,
              trace = [Spawn [''system'', ''service''], Monotonic, Poll, Ping podman_sock]\<rparr>)"
  by (simp add: service_def service_enter_def service_throw_def failing_block_def
      start_service_def run_raw_def wait_for_service_def monotonic_now_def log_def host_def
      fresh_def wait_loop.simps [of _ _ None] iteration_def poll_then_ping_def
      poll_def os_check_def exit_status_now_def ping_def)
end
